theory Spec2Isabelle
  imports Main
begin

section \<open>The SQLite node of n8n-nodes-rckflr-sqlite\<close>

text \<open>
  The repository has one source file, \<^verbatim>\<open>src/nodes/SqliteNode/SqliteNode.node.ts\<close>,
  whose method \<^verbatim>\<open>execute\<close> is embedded here. The host runtime, the file system, the
  JSON parser and the database driver are libraries the method calls: their answers are
  fields of a \<open>host\<close> record, the file system is an explicit state, and every call that
  has an effect is appended to a trace.
\<close>

subsection \<open>Paths: the POSIX half of Node's \<^verbatim>\<open>path\<close> module\<close>

text \<open>
  \<^verbatim>\<open>path.resolve\<close> and \<^verbatim>\<open>path.join\<close> work on the segments between slashes.
  \<open>split_sep\<close> cuts a string at every slash; \<open>join_sep\<close> puts slashes back.
\<close>

fun split_sep :: "string \<Rightarrow> string list" where
  "split_sep [] = [[]]"
| "split_sep (c # cs) =
     (if c = CHR ''/'' then [] # split_sep cs
      else (case split_sep cs of
              [] \<Rightarrow> [[c]]
            | s # ss \<Rightarrow> (c # s) # ss))"

fun join_sep :: "string list \<Rightarrow> string" where
  "join_sep [] = []"
| "join_sep [x] = x"
| "join_sep (x # y # ys) = x @ CHR ''/'' # join_sep (y # ys)"

text \<open>
  \<^verbatim>\<open>normalizeString(path, allowAboveRoot)\<close>: empty segments and \<^verbatim>\<open>.\<close> are skipped,
  \<^verbatim>\<open>..\<close> removes the last segment kept so far unless there is none or it is itself
  \<^verbatim>\<open>..\<close>; then it is kept only when \<open>allowAboveRoot\<close> holds.
\<close>

definition normalize_step :: "bool \<Rightarrow> string \<Rightarrow> string list \<Rightarrow> string list" where
  "normalize_step allowAboveRoot seg res =
     (if seg = [] \<or> seg = ''.'' then res
      else if seg = ''..'' then
        (if res \<noteq> [] \<and> last res \<noteq> ''..'' then butlast res
         else if allowAboveRoot then res @ [''..'']
         else res)
      else res @ [seg])"

definition normalizeString :: "string \<Rightarrow> bool \<Rightarrow> string" where
  "normalizeString p allowAboveRoot =
     join_sep (fold (normalize_step allowAboveRoot) (split_sep p) [])"

definition isAbsolute :: "string \<Rightarrow> bool" where
  "isAbsolute p = (p \<noteq> [] \<and> hd p = CHR ''/'')"

text \<open>
  \<^verbatim>\<open>path.resolve(...args)\<close>: the arguments are taken from the right, each put in front
  of what is built so far, until one is absolute; the working directory is the last
  resort. Empty arguments are skipped.
\<close>

fun resolve_loop :: "string list \<Rightarrow> string \<Rightarrow> bool \<Rightarrow> string \<times> bool" where
  "resolve_loop [] resolvedPath resolvedAbsolute = (resolvedPath, resolvedAbsolute)"
| "resolve_loop (p # ps) resolvedPath resolvedAbsolute =
     (if resolvedAbsolute then (resolvedPath, resolvedAbsolute)
      else if p = [] then resolve_loop ps resolvedPath resolvedAbsolute
      else resolve_loop ps (p @ CHR ''/'' # resolvedPath) (isAbsolute p))"

definition path_resolve :: "string \<Rightarrow> string list \<Rightarrow> string" where
  "path_resolve cwd args =
     (case resolve_loop (rev args @ [cwd]) [] False of
        (resolvedPath, resolvedAbsolute) \<Rightarrow>
          (let r = normalizeString resolvedPath (\<not> resolvedAbsolute)
           in if resolvedAbsolute then CHR ''/'' # r
              else if r \<noteq> [] then r else ''.''))"

text \<open>\<^verbatim>\<open>path.normalize\<close> and \<^verbatim>\<open>path.join\<close>.\<close>

definition path_normalize :: "string \<Rightarrow> string" where
  "path_normalize p =
     (if p = [] then ''.''
      else
        (let trailingSeparator = (last p = CHR ''/'');
             r = normalizeString p (\<not> isAbsolute p)
         in if r = [] then
              (if isAbsolute p then ''/'' else if trailingSeparator then ''./'' else ''.'')
            else
              (let r' = (if trailingSeparator then r @ ''/'' else r)
               in if isAbsolute p then CHR ''/'' # r' else r')))"

definition path_join :: "string list \<Rightarrow> string" where
  "path_join args =
     (let parts = filter (\<lambda>a. a \<noteq> []) args
      in if parts = [] then ''.'' else path_normalize (join_sep parts))"

text \<open>
  Paths in the claims are absolute and clean. \<open>abs_path\<close> writes one from its segments;
  a plain segment is a name: not empty, not \<^verbatim>\<open>.\<close> or \<^verbatim>\<open>..\<close>, without a slash.
\<close>

definition plain_segment :: "string \<Rightarrow> bool" where
  "plain_segment seg =
     (seg \<noteq> [] \<and> seg \<noteq> ''.'' \<and> seg \<noteq> ''..'' \<and> CHR ''/'' \<notin> set seg)"

definition abs_path :: "string list \<Rightarrow> string" where
  "abs_path segs = CHR ''/'' # join_sep segs"

subsection \<open>Values, items and the host\<close>

text \<open>
  JavaScript values as far as the node handles them: the payload of an item, a result row
  of the driver and the parsed \<^verbatim>\<open>args\<close> are JSON values; \<open>JUndefined\<close> is what
  indexing an empty array gives.
\<close>

datatype jsonv =
    JUndefined
  | JNull
  | JBool bool
  | JNumber int
  | JString string
  | JArray "jsonv list"
  | JObject "(string \<times> jsonv) list"

text \<open>
  \<^verbatim>\<open>INodeExecutionData\<close>: the payload \<^verbatim>\<open>json\<close>, and \<open>binary\<close> for the optional
  fields beside it, which \<^verbatim>\<open>execute\<close> never writes.
\<close>

record item =
  json :: jsonv
  binary :: "string option"

text \<open>
  The parameters the schema declares, as the host resolves them for one item
  (\<^verbatim>\<open>getNodeParameter(name, itemIndex, fallback)\<close> reads field \<open>name\<close>).
\<close>

record node_params =
  dbName :: string
  query_type :: string
  query :: string
  args :: string
  spread :: bool

text \<open>The \<^verbatim>\<open>id\<close> of the workflow descriptor may be undefined, null or a string.\<close>

datatype js_string = Undefined | Null | Str string

record workflow =
  workflow_id :: js_string

text \<open>
  How a call ends: it returns, it throws an exception, which carries its \<^verbatim>\<open>message\<close>,
  or it awaits a promise that is never settled and so never ends.
\<close>

datatype 'a outcome = Returned 'a | Thrown string | Pending

text \<open>
  What surrounds the node: the host's answers (\<^verbatim>\<open>getWorkflow\<close>, \<^verbatim>\<open>getNodeParameter\<close>,
  \<^verbatim>\<open>continueOnFail\<close>), the working directory of the process, \<^verbatim>\<open>JSON.parse\<close>, the
  errors the operating system raises on \<^verbatim>\<open>mkdir\<close>, on \<^verbatim>\<open>unlink\<close> and on opening a
  file, and the driver:
  \<open>'db\<close> is the content of a database file, \<open>db_new\<close> the content of a file the driver
  has just created, \<open>db_all\<close> and \<open>db_run\<close> run a statement on a content and give the
  driver's error or the outcome. Reading a parameter does not fail, and the parameters read
  are strings, as the casts of the source take them to be.
\<close>

record 'db host =
  getWorkflow :: "workflow option"
  nodeParameters :: "nat \<Rightarrow> node_params"
  continueOnFail :: bool
  cwd :: string
  JSON_parse :: "string \<Rightarrow> string + jsonv"
  mkdir_error :: "string \<Rightarrow> string option"
  unlink_error :: "string \<Rightarrow> string option"
  open_error :: "string \<Rightarrow> string option"
  db_new :: 'db
  db_all :: "'db \<Rightarrow> string \<Rightarrow> jsonv \<Rightarrow> string + jsonv list \<times> 'db"
  db_run :: "'db \<Rightarrow> string \<Rightarrow> jsonv \<Rightarrow> string + 'db"

text \<open>The calls with an effect outside the node, in the order they are made.\<close>

datatype event =
    MkdirSync string
  | UnlinkSync string
  | NewDatabase string
  | DbAll string string jsonv
  | DbRun string string jsonv
  | DbClose string

text \<open>
  The state \<^verbatim>\<open>execute\<close> works on: the input list \<^verbatim>\<open>items\<close> (mutated in place), the
  local \<^verbatim>\<open>spreadResults\<close>, the file system (database files with their content, and
  directories) and the calls made so far.
\<close>

record 'db state =
  items :: "item list"
  spreadResults :: "item list"
  files :: "string \<rightharpoonup> 'db"
  dirs :: "string set"
  calls :: "event list"

subsection \<open>The file system and the driver\<close>

definition existsSync :: "'db state \<Rightarrow> string \<Rightarrow> bool" where
  "existsSync s p = (files s p \<noteq> None \<or> p \<in> dirs s)"

text \<open>The directory \<open>p\<close> and every directory above it, as \<^verbatim>\<open>{ recursive: true }\<close> creates them.\<close>

fun dir_chain_from :: "string \<Rightarrow> string list \<Rightarrow> string list" where
  "dir_chain_from base [] = []"
| "dir_chain_from base (x # xs) = (base @ x) # dir_chain_from (base @ x @ ''/'') xs"

definition dir_chain :: "string \<Rightarrow> string list" where
  "dir_chain p =
     dir_chain_from (if isAbsolute p then ''/'' else [])
       (filter (\<lambda>seg. seg \<noteq> []) (split_sep p))"

definition mkdirSync_recursive ::
  "'db host \<Rightarrow> string \<Rightarrow> 'db state \<Rightarrow> unit outcome \<times> 'db state" where
  "mkdirSync_recursive h p s =
     (let s1 = s\<lparr>calls := calls s @ [MkdirSync p]\<rparr>
      in case mkdir_error h p of
           Some e \<Rightarrow> (Thrown e, s1)
         | None \<Rightarrow> (Returned (), s1\<lparr>dirs := dirs s1 \<union> set (dir_chain p)\<rparr>))"

definition unlinkSync ::
  "'db host \<Rightarrow> string \<Rightarrow> 'db state \<Rightarrow> unit outcome \<times> 'db state" where
  "unlinkSync h p s =
     (let s1 = s\<lparr>calls := calls s @ [UnlinkSync p]\<rparr>
      in if files s p = None then
           (if p \<in> dirs s
            then (Thrown ''EISDIR: illegal operation on a directory, unlink'', s1)
            else (Thrown ''ENOENT: no such file or directory, unlink'', s1))
         else
           (case unlink_error h p of
              Some e \<Rightarrow> (Thrown e, s1)
            | None \<Rightarrow> (Returned (), s1\<lparr>files := (files s1)(p := None)\<rparr>)))"

text \<open>
  Opening a database file. The driver opens the file at \<open>p\<close> when there is one; when
  there is none it creates an empty one, which needs that \<open>p\<close> is not a directory and that
  the directory holding \<open>p\<close> is there. The operating system may refuse either. \<open>opened_db\<close>
  is the content the driver then works on, if the file opens.
\<close>

definition parent_dir :: "string \<Rightarrow> string" where
  "parent_dir p =
     (if isAbsolute p then ''/'' else []) @
       join_sep (butlast (filter (\<lambda>seg. seg \<noteq> []) (split_sep p)))"

definition dir_exists :: "'db state \<Rightarrow> string \<Rightarrow> bool" where
  "dir_exists s d = (d = ''/'' \<or> d \<in> dirs s)"

definition opened_db :: "'db host \<Rightarrow> 'db state \<Rightarrow> string \<Rightarrow> 'db option" where
  "opened_db h s p =
     (if open_error h p \<noteq> None then None
      else case files s p of
             Some d \<Rightarrow> Some d
           | None \<Rightarrow>
               if p \<in> dirs s \<or> \<not> dir_exists s (parent_dir p) then None
               else Some (db_new h))"

text \<open>
  \<^verbatim>\<open>new sqlite3.Database(dbPath)\<close> returns its handle at once and opens the file behind
  it. No callback is given and no listener is set for the error of a failed open: the
  constructor does not throw, and the handle stays closed. The handle is the path with
  the flag that the file is open.
\<close>

datatype db_handle = Handle string bool

definition new_Database ::
  "'db host \<Rightarrow> string \<Rightarrow> 'db state \<Rightarrow> db_handle \<times> 'db state" where
  "new_Database h p s =
     (let s1 = s\<lparr>calls := calls s @ [NewDatabase p]\<rparr>
      in case opened_db h s p of
           None \<Rightarrow> (Handle p False, s1)
         | Some d \<Rightarrow> (Handle p True, s1\<lparr>files := (files s1)(p \<mapsto> d)\<rparr>))"

text \<open>
  \<^verbatim>\<open>db.all(query, args, callback)\<close> inside the promise: an error rejects, the rows
  resolve. On a handle that did not open the statement is never run and the callback is
  never called: the promise stays pending.
\<close>

definition db_all_call ::
  "'db host \<Rightarrow> db_handle \<Rightarrow> string \<Rightarrow> jsonv \<Rightarrow> 'db state \<Rightarrow> jsonv list outcome \<times> 'db state" where
  "db_all_call h db q a s =
     (case db of
        Handle p opened \<Rightarrow>
          (let s1 = s\<lparr>calls := calls s @ [DbAll p q a]\<rparr>
           in if \<not> opened then (Pending, s1)
              else case files s p of
                     None \<Rightarrow> (Pending, s1)
                   | Some d \<Rightarrow>
                       (case db_all h d q a of
                          Inl e \<Rightarrow> (Thrown e, s1)
                        | Inr (rows, d') \<Rightarrow>
                            (Returned rows, s1\<lparr>files := (files s1)(p \<mapsto> d')\<rparr>))))"

text \<open>
  \<^verbatim>\<open>db.run(query, args, callback)\<close> inside the promise: an error rejects, success
  resolves with the fixed array \<^verbatim>\<open>[{ changes: 1 }]\<close>; pending on a handle that did not
  open.
\<close>

definition db_run_call ::
  "'db host \<Rightarrow> db_handle \<Rightarrow> string \<Rightarrow> jsonv \<Rightarrow> 'db state \<Rightarrow> jsonv list outcome \<times> 'db state" where
  "db_run_call h db q a s =
     (case db of
        Handle p opened \<Rightarrow>
          (let s1 = s\<lparr>calls := calls s @ [DbRun p q a]\<rparr>
           in if \<not> opened then (Pending, s1)
              else case files s p of
                     None \<Rightarrow> (Pending, s1)
                   | Some d \<Rightarrow>
                       (case db_run h d q a of
                          Inl e \<Rightarrow> (Thrown e, s1)
                        | Inr d' \<Rightarrow>
                            (Returned [JObject [(''changes'', JNumber 1)]],
                             s1\<lparr>files := (files s1)(p \<mapsto> d')\<rparr>))))"

text \<open>\<^verbatim>\<open>db.close()\<close>.\<close>

definition db_close :: "db_handle \<Rightarrow> 'db state \<Rightarrow> 'db state" where
  "db_close db s = (case db of Handle p opened \<Rightarrow> s\<lparr>calls := calls s @ [DbClose p]\<rparr>)"

subsection \<open>\<^verbatim>\<open>execute\<close>\<close>

definition workflowId :: "'db host \<Rightarrow> string" where
  "workflowId h =
     (case getWorkflow h of
        None \<Rightarrow> ''default_workflow''
      | Some workflowInfo \<Rightarrow>
          (case workflow_id workflowInfo of
             Str w \<Rightarrow> if w = [] then ''default_workflow'' else w
           | _ \<Rightarrow> ''default_workflow''))"

definition workflowDir :: "'db host \<Rightarrow> string" where
  "workflowDir h = path_resolve (cwd h) [''./databases'', workflowId h]"

definition dbPath :: "string \<Rightarrow> string \<Rightarrow> string" where
  "dbPath dir name = path_join [dir, name @ ''.db'']"

text \<open>\<^verbatim>\<open>items[itemIndex].json = v\<close>: the other fields of the item stay.\<close>

definition set_json :: "item list \<Rightarrow> nat \<Rightarrow> jsonv \<Rightarrow> item list" where
  "set_json its i v = its[i := (its ! i)\<lparr>json := v\<rparr>]"

text \<open>\<^verbatim>\<open>{ json: result }\<close>, the record pushed for a row.\<close>

definition spread_item :: "jsonv \<Rightarrow> item" where
  "spread_item result = \<lparr>json = result, binary = None\<rparr>"

text \<open>\<^verbatim>\<open>results[0]\<close>.\<close>

definition index0 :: "jsonv list \<Rightarrow> jsonv" where
  "index0 results = (case results of [] \<Rightarrow> JUndefined | r # _ \<Rightarrow> r)"

text \<open>
  The body of the \<^verbatim>\<open>try\<close> block for one item (lines 95 to 133). \<open>Thrown\<close> is an
  exception leaving the block, \<open>Pending\<close> an \<^verbatim>\<open>await\<close> that never ends; the state either
  comes with holds what was done before.
\<close>

definition try_body ::
  "'db host \<Rightarrow> string \<Rightarrow> nat \<Rightarrow> 'db state \<Rightarrow> unit outcome \<times> 'db state" where
  "try_body h dir itemIndex s =
     (let p = nodeParameters h itemIndex;
          path = dbPath dir (dbName p)
      in if query_type p = ''DELETE_DATABASE'' then
           (if existsSync s path then
              (case unlinkSync h path s of
                 (Thrown e, s1) \<Rightarrow> (Thrown e, s1)
               | (Pending, s1) \<Rightarrow> (Pending, s1)
               | (Returned _, s1) \<Rightarrow>
                   (Returned (),
                    s1\<lparr>items := set_json (items s1) itemIndex
                      (JObject [(''success'', JBool True),
                                (''message'', JString (''Database '' @ dbName p @
                                   '' deleted successfully.''))])\<rparr>))
            else
              (Returned (),
               s\<lparr>items := set_json (items s) itemIndex
                 (JObject [(''success'', JBool False),
                           (''message'', JString (''Database '' @ dbName p @
                              '' does not exist.''))])\<rparr>))
         else
           (case JSON_parse h (args p) of
              Inl e \<Rightarrow> (Thrown e, s)
            | Inr a \<Rightarrow>
                (case new_Database h path s of
                   (db, s1) \<Rightarrow>
                     (case (if query_type p = ''SELECT''
                            then db_all_call h db (query p) a s1
                            else db_run_call h db (query p) a s1) of
                        (Thrown e, s2) \<Rightarrow> (Thrown e, s2)
                      | (Pending, s2) \<Rightarrow> (Pending, s2)
                      | (Returned results, s2) \<Rightarrow>
                          (let s3 =
                             (if query_type p = ''SELECT''
                              then s2\<lparr>spreadResults := spreadResults s2 @
                                     map spread_item results\<rparr>
                              else s2\<lparr>items :=
                                     set_json (items s2) itemIndex (index0 results)\<rparr>)
                           in (Returned (), db_close db s3))))))"

text \<open>The \<^verbatim>\<open>try\<close> with its \<^verbatim>\<open>catch\<close> (lines 94 to 140): one turn of the loop.\<close>

definition loop_body ::
  "'db host \<Rightarrow> string \<Rightarrow> nat \<Rightarrow> 'db state \<Rightarrow> unit outcome \<times> 'db state" where
  "loop_body h dir itemIndex s =
     (case try_body h dir itemIndex s of
        (Thrown e, s1) \<Rightarrow>
          (if continueOnFail h
           then (Returned (),
                 s1\<lparr>items := set_json (items s1) itemIndex (JObject [(''error'', JString e)])\<rparr>)
           else (Thrown e, s1))
      | (Pending, s1) \<Rightarrow> (Pending, s1)
      | (Returned u, s1) \<Rightarrow> (Returned u, s1))"

lemma length_set_json [simp]: "length (set_json its i v) = length its"
  by (simp add: set_json_def)

lemma length_items_try_body:
  "length (items (snd (try_body h dir i s))) = length (items s)"
  by (simp add: try_body_def Let_def unlinkSync_def new_Database_def db_all_call_def
      db_run_call_def db_close_def
      split: sum.splits option.splits prod.splits outcome.splits db_handle.splits)

lemma length_items_loop_body:
  "length (items (snd (loop_body h dir i s))) = length (items s)"
proof (cases "try_body h dir i s")
  case (Pair r s1)
  with length_items_try_body [of h dir i s] show ?thesis
    by (cases r) (simp_all add: loop_body_def)
qed

text \<open>
  The \<^verbatim>\<open>for\<close> loop from \<open>itemIndex\<close> on; an exception ends it, and it does not go
  past a pending \<^verbatim>\<open>await\<close>.
\<close>

function loop ::
  "'db host \<Rightarrow> string \<Rightarrow> nat \<Rightarrow> 'db state \<Rightarrow> unit outcome \<times> 'db state" where
  "loop h dir itemIndex s =
     (if itemIndex < length (items s) then
        (case loop_body h dir itemIndex s of
           (Thrown e, s1) \<Rightarrow> (Thrown e, s1)
         | (Pending, s1) \<Rightarrow> (Pending, s1)
         | (Returned _, s1) \<Rightarrow> loop h dir (Suc itemIndex) s1)
      else (Returned (), s))"
  by pat_completeness auto
termination
proof (relation "measure (\<lambda>(h, dir, itemIndex, s). length (items s) - itemIndex)")
  show "wf (measure (\<lambda>(h, dir, itemIndex, s). length (items s) - itemIndex))"
    by simp
next
  fix h :: "'db host" and dir itemIndex and s :: "'db state" and x y u
  assume lt: "itemIndex < length (items s)"
    and body: "(x, y) = loop_body h dir itemIndex s"
  have "length (items y) = length (items s)"
    using length_items_loop_body [of h dir itemIndex s] body [symmetric] by simp
  with lt show "((h, dir, Suc itemIndex, y), (h, dir, itemIndex, s))
      \<in> measure (\<lambda>(h, dir, itemIndex, s). length (items s) - itemIndex)"
    by simp
qed

declare loop.simps [simp del]

text \<open>\<^verbatim>\<open>prepareOutputData\<close> of the host wraps the list as the only output branch.\<close>

definition prepareOutputData :: "item list \<Rightarrow> item list list" where
  "prepareOutputData outputData = [outputData]"

text \<open>
  \<^verbatim>\<open>execute\<close>, started on the input items and a file system. The directory of the
  workflow is looked for and made before the loop, outside the \<^verbatim>\<open>try\<close>.
\<close>

definition init_state ::
  "(string \<rightharpoonup> 'db) \<Rightarrow> string set \<Rightarrow> item list \<Rightarrow> 'db state" where
  "init_state files0 dirs0 inputData =
     \<lparr>items = inputData, spreadResults = [], files = files0, dirs = dirs0, calls = []\<rparr>"

definition ensure_dir ::
  "'db host \<Rightarrow> string \<Rightarrow> 'db state \<Rightarrow> unit outcome \<times> 'db state" where
  "ensure_dir h dir s =
     (if \<not> existsSync s dir then mkdirSync_recursive h dir s else (Returned (), s))"

definition execute ::
  "'db host \<Rightarrow> (string \<rightharpoonup> 'db) \<Rightarrow> string set \<Rightarrow> item list
     \<Rightarrow> item list list outcome \<times> 'db state" where
  "execute h files0 dirs0 inputData =
     (case ensure_dir h (workflowDir h) (init_state files0 dirs0 inputData) of
        (Thrown e, s1) \<Rightarrow> (Thrown e, s1)
      | (Pending, s1) \<Rightarrow> (Pending, s1)
      | (Returned _, s1) \<Rightarrow>
          (case loop h (workflowDir h) 0 s1 of
             (Thrown e, s2) \<Rightarrow> (Thrown e, s2)
           | (Pending, s2) \<Rightarrow> (Pending, s2)
           | (Returned _, s2) \<Rightarrow>
               (Returned (if length (spreadResults s2) > 0
                          then prepareOutputData (spreadResults s2)
                          else prepareOutputData (items s2)), s2)))"

subsection \<open>Observing a run\<close>

text \<open>
  \<open>run_items h dir i k s\<close> makes \<open>k\<close> turns of the loop from index \<open>i\<close>, and
  \<open>state_before\<close> is the state in which \<^verbatim>\<open>execute\<close> arrives at item \<open>j\<close>, when no
  exception has ended it earlier.
\<close>

fun run_items ::
  "'db host \<Rightarrow> string \<Rightarrow> nat \<Rightarrow> nat \<Rightarrow> 'db state \<Rightarrow> unit outcome \<times> 'db state" where
  "run_items h dir i 0 s = (Returned (), s)"
| "run_items h dir i (Suc k) s =
     (case loop_body h dir i s of
        (Thrown e, s1) \<Rightarrow> (Thrown e, s1)
      | (Pending, s1) \<Rightarrow> (Pending, s1)
      | (Returned _, s1) \<Rightarrow> run_items h dir (Suc i) k s1)"

definition state_before ::
  "'db host \<Rightarrow> (string \<rightharpoonup> 'db) \<Rightarrow> string set \<Rightarrow> item list \<Rightarrow> nat
     \<Rightarrow> unit outcome \<times> 'db state" where
  "state_before h files0 dirs0 inputData j =
     (case ensure_dir h (workflowDir h) (init_state files0 dirs0 inputData) of
        (Thrown e, s1) \<Rightarrow> (Thrown e, s1)
      | (Pending, s1) \<Rightarrow> (Pending, s1)
      | (Returned _, s1) \<Rightarrow> run_items h (workflowDir h) 0 j s1)"

text \<open>
  The rows the driver gives for item \<open>i\<close> in state \<open>s\<close>: those of \<open>db_all\<close> when the
  item is a SELECT whose \<^verbatim>\<open>args\<close> parse, whose database opens and whose query
  succeeds, none otherwise.
\<close>

definition select_rows :: "'db host \<Rightarrow> string \<Rightarrow> nat \<Rightarrow> 'db state \<Rightarrow> jsonv list" where
  "select_rows h dir i s =
     (let p = nodeParameters h i
      in if query_type p = ''SELECT'' then
           (case JSON_parse h (args p) of
              Inl e \<Rightarrow> []
            | Inr a \<Rightarrow>
                (case opened_db h s (dbPath dir (dbName p)) of
                   None \<Rightarrow> []
                 | Some d \<Rightarrow>
                     (case db_all h d (query p) a of
                        Inl e \<Rightarrow> []
                      | Inr (rows, d') \<Rightarrow> rows)))
         else [])"

definition rows_of_item ::
  "'db host \<Rightarrow> (string \<rightharpoonup> 'db) \<Rightarrow> string set \<Rightarrow> item list \<Rightarrow> nat \<Rightarrow> jsonv list" where
  "rows_of_item h files0 dirs0 inputData j =
     (case state_before h files0 dirs0 inputData j of
        (Thrown e, s) \<Rightarrow> []
      | (Pending, s) \<Rightarrow> []
      | (Returned _, s) \<Rightarrow> select_rows h (workflowDir h) j s)"

fun is_MkdirSync :: "event \<Rightarrow> bool" where
  "is_MkdirSync (MkdirSync p) = True"
| "is_MkdirSync e = False"

fun event_path :: "event \<Rightarrow> string" where
  "event_path (MkdirSync p) = p"
| "event_path (UnlinkSync p) = p"
| "event_path (NewDatabase p) = p"
| "event_path (DbAll p q a) = p"
| "event_path (DbRun p q a) = p"
| "event_path (DbClose p) = p"

fun is_driver_call :: "event \<Rightarrow> bool" where
  "is_driver_call (MkdirSync p) = False"
| "is_driver_call (UnlinkSync p) = False"
| "is_driver_call e = True"

text \<open>The calls of the loop: none makes a directory, each is on the database of an item.\<close>

definition loop_calls :: "'db host \<Rightarrow> string \<Rightarrow> event list \<Rightarrow> bool" where
  "loop_calls h dir evs =
     (\<forall>ev \<in> set evs. \<not> is_MkdirSync ev \<and>
        (\<exists>i. event_path ev = dbPath dir (dbName (nodeParameters h i))))"

subsection \<open>A small host for concrete runs\<close>

text \<open>
  A host to run the node on: the workflow \<^verbatim>\<open>wf1\<close>, the working directory
  \<^verbatim>\<open>/srv\<close>, a parser that knows the empty object only, an operating system that
  never fails, and a driver whose database is one table, a list of rows:
  \<^verbatim>\<open>SELECT\<close> gives the rows, any other statement but \<^verbatim>\<open>BAD\<close> adds a row.
\<close>

definition demo_parse :: "string \<Rightarrow> string + jsonv" where
  "demo_parse str =
     (if str = ''{}'' then Inr (JObject []) else Inl ''Unexpected end of JSON input'')"

definition demo_all :: "jsonv list \<Rightarrow> string \<Rightarrow> jsonv \<Rightarrow> string + jsonv list \<times> jsonv list" where
  "demo_all d q a = (if q = ''BAD'' then Inl ''SQLITE_ERROR: syntax error'' else Inr (d, d))"

definition demo_run :: "jsonv list \<Rightarrow> string \<Rightarrow> jsonv \<Rightarrow> string + jsonv list" where
  "demo_run d q a =
     (if q = ''BAD'' then Inl ''SQLITE_ERROR: syntax error''
      else Inr (d @ [JObject [(''n'', JNumber (int (length d)))]]))"

definition demo_host :: "(nat \<Rightarrow> node_params) \<Rightarrow> bool \<Rightarrow> (jsonv list) host" where
  "demo_host ps cof =
     \<lparr>getWorkflow = Some \<lparr>workflow_id = Str ''wf1''\<rparr>,
      nodeParameters = ps,
      continueOnFail = cof,
      cwd = ''/srv'',
      JSON_parse = demo_parse,
      mkdir_error = (\<lambda>p. None),
      unlink_error = (\<lambda>p. None),
      open_error = (\<lambda>p. None),
      db_new = [],
      db_all = demo_all,
      db_run = demo_run\<rparr>"

definition demo_every :: "node_params \<Rightarrow> nat \<Rightarrow> node_params" where
  "demo_every p = (\<lambda>i. p)"

definition demo_params :: "string \<Rightarrow> string \<Rightarrow> string \<Rightarrow> node_params" where
  "demo_params kind q a =
     \<lparr>dbName = ''orders'', query_type = kind, query = q, args = a, spread = False\<rparr>"

definition demo_item :: "int \<Rightarrow> item" where
  "demo_item n = \<lparr>json = JObject [(''in'', JNumber n)], binary = None\<rparr>"

definition demo_insert :: node_params where
  "demo_insert = demo_params ''INSERT'' ''INSERT INTO t DEFAULT VALUES'' ''{}''"

definition demo_select :: node_params where
  "demo_select = demo_params ''SELECT'' ''SELECT * FROM t'' ''{}''"

definition demo_mixed :: "nat \<Rightarrow> node_params" where
  "demo_mixed i = (if i = 0 then demo_insert else demo_select)"

definition demo_delete :: node_params where
  "demo_delete = demo_params ''DELETE_DATABASE'' [] ''{}''"

definition demo_malformed :: "string \<Rightarrow> node_params" where
  "demo_malformed kind = demo_params kind ''INSERT INTO t DEFAULT VALUES'' ''{''"

definition demo_refuse :: "string \<Rightarrow> string option" where
  "demo_refuse p = Some ''EACCES: permission denied, mkdir''"

definition demo_recover :: "nat \<Rightarrow> node_params" where
  "demo_recover i = (if i = 0 then demo_malformed ''INSERT'' else demo_insert)"

definition demo_auto :: node_params where
  "demo_auto = demo_params ''AUTO'' ''SELECT * FROM t'' ''{}''"

section \<open>Properties\<close>

subsection \<open>Paths\<close>

lemma path_resolve_example:
  "path_resolve ''/srv/n8n'' [''./databases'', ''wf1''] = ''/srv/n8n/databases/wf1''"
  by (simp add: path_resolve_def normalizeString_def normalize_step_def isAbsolute_def)

lemma path_join_example:
  "path_join [''/srv/n8n/databases/wf1'', ''orders.db''] = ''/srv/n8n/databases/wf1/orders.db''"
  by (simp add: path_join_def path_normalize_def normalizeString_def normalize_step_def
      isAbsolute_def)

lemma split_sep_not_Nil [simp]: "split_sep p \<noteq> []"
  by (induction p) (auto split: list.splits)

lemma split_sep_append: "split_sep (a @ CHR ''/'' # b) = split_sep a @ split_sep b"
  by (induction a) (auto split: list.splits)

lemma split_sep_plain: "CHR ''/'' \<notin> set seg \<Longrightarrow> split_sep seg = [seg]"
  by (induction seg) auto

lemma normalize_step_plain:
  "plain_segment seg \<Longrightarrow> normalize_step aar seg res = res @ [seg]"
  by (simp add: normalize_step_def plain_segment_def)

lemma normalize_step_skip [simp]:
  "normalize_step aar [] res = res" "normalize_step aar ''.'' res = res"
  by (simp_all add: normalize_step_def)

lemma fold_normalize_join:
  "\<forall>seg \<in> set segs. plain_segment seg \<Longrightarrow>
   fold (normalize_step aar) (split_sep (join_sep segs)) res = res @ segs"
proof (induction segs arbitrary: res rule: join_sep.induct)
  case 1
  then show ?case by simp
next
  case (2 x)
  then show ?case
    by (simp add: split_sep_plain plain_segment_def normalize_step_plain)
next
  case (3 x y ys)
  then show ?case
    by (simp add: split_sep_append split_sep_plain plain_segment_def normalize_step_plain)
qed

lemma join_sep_Nil_iff: "\<forall>seg \<in> set segs. seg \<noteq> [] \<Longrightarrow> join_sep segs = [] \<longleftrightarrow> segs = []"
  by (induction segs rule: join_sep.induct) auto

lemma normalizeString_abs_path:
  assumes "\<forall>seg \<in> set segs. plain_segment seg" "\<forall>seg \<in> set rest. plain_segment seg"
  shows "normalizeString (abs_path segs @ CHR ''/'' # join_sep rest) aar = join_sep (segs @ rest)"
  using assms
  by (simp add: normalizeString_def abs_path_def split_sep_append fold_normalize_join)

lemma isAbsolute_abs_path [simp]: "isAbsolute (abs_path segs @ rest)"
  by (simp add: isAbsolute_def abs_path_def)

lemma path_resolve_abs_path:
  assumes "\<forall>seg \<in> set segs. plain_segment seg" "plain_segment w"
  shows "path_resolve (abs_path segs) [''./databases'', w] = abs_path (segs @ [''databases'', w])"
proof -
  have w: "w \<noteq> []" using assms(2) by (simp add: plain_segment_def)
  have a: "abs_path segs \<noteq> []" by (simp add: abs_path_def)
  have i: "isAbsolute (abs_path segs)" using isAbsolute_abs_path [of segs "[]"] by simp
  have n: "\<not> isAbsolute w" using assms(2) by (cases w) (auto simp: isAbsolute_def plain_segment_def)
  have r: "resolve_loop (rev [''./databases'', w] @ [abs_path segs]) [] False =
      (abs_path segs @ CHR ''/'' # ''./databases'' @ CHR ''/'' # w @ ''/'', True)"
    using w a i n by (simp add: isAbsolute_def)
  have s: "fold (normalize_step False)
      (split_sep (abs_path segs @ CHR ''/'' # ''./databases'' @ CHR ''/'' # w @ ''/'')) [] =
      segs @ [''databases'', w]"
    using assms
    by (simp add: abs_path_def split_sep_append fold_normalize_join split_sep_plain
        plain_segment_def normalize_step_plain)
  have "path_resolve (abs_path segs) [''./databases'', w] =
      CHR ''/'' # join_sep (segs @ [''databases'', w])"
    unfolding path_resolve_def r using s by (simp add: normalizeString_def)
  then show ?thesis by (simp add: abs_path_def)
qed

lemma plain_db_file: "CHR ''/'' \<notin> set name \<Longrightarrow> plain_segment (name @ ''.db'')"
  by (auto simp: plain_segment_def append_eq_Cons_conv)

lemma dbPath_abs_path:
  assumes "\<forall>seg \<in> set segs. plain_segment seg" "CHR ''/'' \<notin> set name"
  shows "dbPath (abs_path segs) name = abs_path (segs @ [name @ ''.db''])"
proof -
  have p: "plain_segment (name @ ''.db'')" using assms(2) by (rule plain_db_file)
  have n: "normalizeString (abs_path segs @ CHR ''/'' # join_sep [name @ ''.db'']) False =
      join_sep (segs @ [name @ ''.db''])"
    using assms(1) p by (intro normalizeString_abs_path) simp_all
  have ne: "join_sep (segs @ [name @ ''.db'']) \<noteq> []"
    using assms(1) by (subst join_sep_Nil_iff) (auto simp: plain_segment_def)
  have a: "abs_path segs \<noteq> []" by (simp add: abs_path_def)
  have i: "isAbsolute (abs_path segs @ CHR ''/'' # name @ ''.db'')"
    by (rule isAbsolute_abs_path)
  show ?thesis
    using n ne a i
    by (simp add: dbPath_def path_join_def path_normalize_def Let_def abs_path_def)
qed

lemma join_sep_Cons: "ys \<noteq> [] \<Longrightarrow> join_sep (x # ys) = x @ CHR ''/'' # join_sep ys"
  by (cases ys) simp_all

lemma dir_chain_from_mem:
  "0 < k \<Longrightarrow> k \<le> length xs \<Longrightarrow> base @ join_sep (take k xs) \<in> set (dir_chain_from base xs)"
proof (induction xs arbitrary: base k)
  case Nil
  then show ?case by simp
next
  case (Cons x xs)
  show ?case
  proof (cases k)
    case 0
    with Cons.prems show ?thesis by simp
  next
    case (Suc k')
    show ?thesis
    proof (cases "k' = 0")
      case True
      with Suc show ?thesis by simp
    next
      case False
      with Suc Cons.prems have k': "0 < k'" "k' \<le> length xs" by simp_all
      then have ne: "take k' xs \<noteq> []" by (cases xs) auto
      have "(base @ x @ ''/'') @ join_sep (take k' xs) \<in> set (dir_chain_from (base @ x @ ''/'') xs)"
        by (rule Cons.IH [OF k'])
      with Suc ne show ?thesis by (simp add: join_sep_Cons)
    qed
  qed
qed

lemma segments_join_sep:
  "\<forall>seg \<in> set xs. plain_segment seg \<Longrightarrow>
   filter (\<lambda>seg. seg \<noteq> []) (split_sep (join_sep xs)) = xs"
proof (induction xs rule: join_sep.induct)
  case 1
  show ?case by simp
next
  case (2 x)
  then show ?case by (simp add: split_sep_plain plain_segment_def)
next
  case (3 x y ys)
  then show ?case by (simp add: split_sep_append split_sep_plain plain_segment_def)
qed

lemma dir_chain_abs_path:
  assumes "\<forall>seg \<in> set xs. plain_segment seg" "0 < k" "k \<le> length xs"
  shows "abs_path (take k xs) \<in> set (dir_chain (abs_path xs))"
proof -
  have "dir_chain (abs_path xs) = dir_chain_from ''/'' xs"
    using segments_join_sep [OF assms(1)] isAbsolute_abs_path [of xs "[]"]
    by (simp add: dir_chain_def abs_path_def)
  with dir_chain_from_mem [OF assms(2,3), of "''/''"] show ?thesis
    by (simp add: abs_path_def)
qed

lemma plain_wf1: "plain_segment ''wf1''" "plain_segment ''databases''"
  "plain_segment ''default_workflow''"
  by (simp_all add: plain_segment_def)

subsection \<open>The loop, turn by turn\<close>

lemma loop_run_items:
  "loop h dir i s = run_items h dir i (length (items s) - i) s"
proof (induction h dir i s rule: loop.induct)
  case (1 h dir i s)
  show ?case
  proof (cases "i < length (items s)")
    case False
    then show ?thesis by (simp add: loop.simps)
  next
    case True
    then have n: "length (items s) - i = Suc (length (items s) - Suc i)" by simp
    obtain r s1 where b: "loop_body h dir i s = (r, s1)" by (cases "loop_body h dir i s")
    have len: "length (items s1) = length (items s)"
      using length_items_loop_body [of h dir i s] b by simp
    show ?thesis
    proof (cases r)
      case (Thrown e)
      with True b n show ?thesis by (simp add: loop.simps)
    next
      case Pending
      with True b n show ?thesis by (simp add: loop.simps)
    next
      case (Returned u)
      from "1.IH" [OF True b [symmetric] Returned]
      have "loop h dir (Suc i) s1 = run_items h dir (Suc i) (length (items s1) - Suc i) s1" .
      with True b n len Returned show ?thesis by (simp add: loop.simps)
    qed
  qed
qed

lemma run_items_snoc:
  "run_items h dir i (Suc k) s =
     (case run_items h dir i k s of
        (Thrown e, s1) \<Rightarrow> (Thrown e, s1)
      | (Pending, s1) \<Rightarrow> (Pending, s1)
      | (Returned _, s1) \<Rightarrow> loop_body h dir (i + k) s1)"
proof (induction k arbitrary: i s)
  case 0
  then show ?case by (simp split: prod.splits outcome.splits)
next
  case (Suc k)
  show ?case
  proof (cases "loop_body h dir i s")
    case (Pair r s1)
    show ?thesis
    proof (cases r)
      case (Thrown e)
      with Pair show ?thesis by simp
    next
      case Pending
      with Pair show ?thesis by simp
    next
      case (Returned u)
      have a: "run_items h dir i (Suc (Suc k)) s = run_items h dir (Suc i) (Suc k) s1"
        using Pair Returned by simp
      have b: "run_items h dir i (Suc k) s = run_items h dir (Suc i) k s1"
        using Pair Returned by simp
      have c: "i + Suc k = Suc i + k" by simp
      show ?thesis
        unfolding a b c by (rule Suc.IH)
    qed
  qed
qed


lemma run_items_rel:
  assumes refl: "\<And>s. R s s"
    and trans: "\<And>a b c. R a b \<Longrightarrow> R b c \<Longrightarrow> R a c"
    and body: "\<And>j s. i \<le> j \<Longrightarrow> j < i + k \<Longrightarrow> R s (snd (loop_body h dir j s))"
  shows "R s (snd (run_items h dir i k s))"
  using body
proof (induction k arbitrary: i s)
  case 0
  show ?case by (simp add: refl)
next
  case (Suc k)
  obtain r s1 where b: "loop_body h dir i s = (r, s1)" by (cases "loop_body h dir i s")
  have R1: "R s s1" using Suc.prems [of i s] b by simp
  show ?case
  proof (cases r)
    case (Thrown e)
    with b R1 show ?thesis by simp
  next
    case Pending
    with b R1 show ?thesis by simp
  next
    case (Returned u)
    have "R s1 (snd (run_items h dir (Suc i) k s1))"
      by (rule Suc.IH) (simp add: Suc.prems)
    with R1 have "R s (snd (run_items h dir (Suc i) k s1))" by (rule trans)
    with b Returned show ?thesis by simp
  qed
qed

lemmas turn_defs =
  try_body_def unlinkSync_def new_Database_def db_all_call_def db_run_call_def db_close_def
  Let_def

lemma loop_body_cases:
  "loop_body h dir i s =
     (case try_body h dir i s of
        (Thrown e, s1) \<Rightarrow>
          (if continueOnFail h
           then (Returned (),
                 s1\<lparr>items := set_json (items s1) i (JObject [(''error'', JString e)])\<rparr>)
           else (Thrown e, s1))
      | (Pending, s1) \<Rightarrow> (Pending, s1)
      | (Returned u, s1) \<Rightarrow> (Returned u, s1))"
  by (simp add: loop_body_def)

lemma loop_step:
  assumes "i < length (items s)" "loop_body h dir i s = (Returned (), s1)"
  shows "loop h dir i s = loop h dir (Suc i) s1"
  using assms by (subst loop.simps) simp

lemma loop_abort:
  assumes "i < length (items s)" "loop_body h dir i s = (Thrown e, s1)"
  shows "loop h dir i s = (Thrown e, s1)"
  using assms by (subst loop.simps) simp

lemma dirs_try_body: "dirs (snd (try_body h dir i s)) = dirs s"
  by (simp add: turn_defs split: sum.splits option.splits prod.splits outcome.splits)

lemma dirs_loop_body: "dirs (snd (loop_body h dir i s)) = dirs s"
proof (cases "try_body h dir i s")
  case (Pair r s1)
  with dirs_try_body [of h dir i s] show ?thesis
    by (cases r) (simp_all add: loop_body_def)
qed

lemma dirs_run_items: "dirs (snd (run_items h dir i k s)) = dirs s"
  by (rule run_items_rel [where R = "\<lambda>a b. dirs b = dirs a"])
    (simp_all add: dirs_loop_body)


lemma json_set_json: "i < length its \<Longrightarrow> json (set_json its i v ! i) = v"
  by (simp add: set_json_def)









text \<open>The turn of an item whose kind is neither SELECT nor DELETE_DATABASE, on success.\<close>

lemma loop_body_mutating:
  assumes "query_type (nodeParameters h i) \<noteq> ''SELECT''"
    and "query_type (nodeParameters h i) \<noteq> ''DELETE_DATABASE''"
    and "JSON_parse h (args (nodeParameters h i)) = Inr a"
    and "opened_db h s (dbPath dir (dbName (nodeParameters h i))) = Some d"
    and "db_run h d (query (nodeParameters h i)) a = Inr d'"
  shows "loop_body h dir i s =
     (Returned (),
      s\<lparr>items := set_json (items s) i (JObject [(''changes'', JNumber 1)]),
        files := (files s)(dbPath dir (dbName (nodeParameters h i)) \<mapsto> d'),
        calls := calls s @
          [NewDatabase (dbPath dir (dbName (nodeParameters h i))),
           DbRun (dbPath dir (dbName (nodeParameters h i))) (query (nodeParameters h i)) a,
           DbClose (dbPath dir (dbName (nodeParameters h i)))]\<rparr>)"
  using assms by (simp add: loop_body_def turn_defs index0_def)

lemma try_body_parse_error:
  assumes "query_type (nodeParameters h i) \<noteq> ''DELETE_DATABASE''"
    and "JSON_parse h (args (nodeParameters h i)) = Inl e"
  shows "try_body h dir i s = (Thrown e, s)"
  using assms by (simp add: try_body_def)

lemma try_body_select_error:
  assumes "query_type (nodeParameters h i) = ''SELECT''"
    and "JSON_parse h (args (nodeParameters h i)) = Inr a"
    and "opened_db h s (dbPath dir (dbName (nodeParameters h i))) = Some d"
    and "db_all h d (query (nodeParameters h i)) a = Inl e"
  shows "fst (try_body h dir i s) = Thrown e"
  using assms by (simp add: turn_defs opened_db_def)

lemma try_body_run_error:
  assumes "query_type (nodeParameters h i) \<noteq> ''SELECT''"
    and "query_type (nodeParameters h i) \<noteq> ''DELETE_DATABASE''"
    and "JSON_parse h (args (nodeParameters h i)) = Inr a"
    and "opened_db h s (dbPath dir (dbName (nodeParameters h i))) = Some d"
    and "db_run h d (query (nodeParameters h i)) a = Inl e"
  shows "fst (try_body h dir i s) = Thrown e"
  using assms by (simp add: turn_defs opened_db_def)

lemma try_body_unlink_error:
  assumes "query_type (nodeParameters h i) = ''DELETE_DATABASE''"
    and "files s (dbPath dir (dbName (nodeParameters h i))) \<noteq> None"
    and "unlink_error h (dbPath dir (dbName (nodeParameters h i))) = Some e"
  shows "fst (try_body h dir i s) = Thrown e"
  using assms by (auto simp: turn_defs existsSync_def)

text \<open>With continue-on-fail no exception leaves a turn, nor the loop.\<close>

lemma loop_body_continue:
  assumes "continueOnFail h"
  shows "fst (loop_body h dir i s) \<noteq> Thrown e"
proof (cases "try_body h dir i s")
  case (Pair r s1)
  with assms show ?thesis by (cases r) (simp_all add: loop_body_def)
qed

lemma run_items_continue:
  assumes "continueOnFail h"
  shows "fst (run_items h dir i k s) \<noteq> Thrown e"
proof (induction k arbitrary: i s)
  case 0
  show ?case by simp
next
  case (Suc k)
  obtain r s1 where b: "loop_body h dir i s = (r, s1)" by (cases "loop_body h dir i s")
  show ?case
  proof (cases r)
    case (Returned u)
    with b Suc.IH [of "Suc i" s1] show ?thesis by simp
  next
    case (Thrown e')
    with b loop_body_continue [OF assms, of dir i s e'] show ?thesis by simp
  next
    case Pending
    with b show ?thesis by simp
  qed
qed

text \<open>
  A database that does not open: the statement is handed to the driver, its callback is
  never called, and the turn never ends, continue-on-fail or not.
\<close>

lemma loop_body_open_failure:
  assumes "query_type (nodeParameters h i) \<noteq> ''DELETE_DATABASE''"
    and "JSON_parse h (args (nodeParameters h i)) = Inr a"
    and "opened_db h s (dbPath dir (dbName (nodeParameters h i))) = None"
  shows "fst (try_body h dir i s) = Pending" and "fst (loop_body h dir i s) = Pending"
  using assms by (simp_all add: loop_body_def turn_defs)

lemma driver_calls_delete:
  assumes "query_type (nodeParameters h i) = ''DELETE_DATABASE''"
  shows "filter is_driver_call (calls (snd (loop_body h dir i s))) =
     filter is_driver_call (calls s)"
  using assms by (simp add: loop_body_def turn_defs split: option.splits)

lemma loop_calls_try_body:
  "\<exists>evs. calls (snd (try_body h dir i s)) = calls s @ evs \<and> loop_calls h dir evs"
  by (auto simp: turn_defs loop_calls_def
      split: sum.splits option.splits prod.splits outcome.splits)

lemma loop_calls_loop_body:
  "\<exists>evs. calls (snd (loop_body h dir i s)) = calls s @ evs \<and> loop_calls h dir evs"
proof (cases "try_body h dir i s")
  case (Pair r s1)
  with loop_calls_try_body [of h dir i s] show ?thesis
    by (cases r) (simp_all add: loop_body_def)
qed

lemma loop_calls_run_items:
  "\<exists>evs. calls (snd (run_items h dir i k s)) = calls s @ evs \<and> loop_calls h dir evs"
proof (rule run_items_rel
    [where R = "\<lambda>a b. \<exists>evs. calls b = calls a @ evs \<and> loop_calls h dir evs"])
  show "\<exists>evs. calls s = calls s @ evs \<and> loop_calls h dir evs" for s :: "'a state"
    by (simp add: loop_calls_def)
next
  fix a b c :: "'a state"
  assume "\<exists>evs. calls b = calls a @ evs \<and> loop_calls h dir evs"
    and "\<exists>evs. calls c = calls b @ evs \<and> loop_calls h dir evs"
  then obtain e1 e2 where "calls c = calls a @ (e1 @ e2)"
    "loop_calls h dir e1" "loop_calls h dir e2" by auto
  then have "calls c = calls a @ (e1 @ e2) \<and> loop_calls h dir (e1 @ e2)"
    by (auto simp: loop_calls_def)
  then show "\<exists>evs. calls c = calls a @ evs \<and> loop_calls h dir evs" ..
next
  show "\<exists>evs. calls (snd (loop_body h dir j s)) = calls s @ evs \<and> loop_calls h dir evs"
    for j s by (rule loop_calls_loop_body)
qed

subsection \<open>Whole runs\<close>

lemma ensure_dir_frame:
  "items (snd (ensure_dir h p s)) = items s"
  "spreadResults (snd (ensure_dir h p s)) = spreadResults s"
  "files (snd (ensure_dir h p s)) = files s"
  by (simp_all add: ensure_dir_def mkdirSync_recursive_def Let_def split: option.splits)

lemma ensure_dir_calls:
  "calls (snd (ensure_dir h p s)) =
     calls s @ (if existsSync s p then [] else [MkdirSync p])"
  by (simp add: ensure_dir_def mkdirSync_recursive_def Let_def split: option.splits)

lemma ensure_dir_dirs:
  "dirs s \<subseteq> dirs (snd (ensure_dir h p s))"
  "\<not> existsSync s p \<Longrightarrow> mkdir_error h p = None \<Longrightarrow>
     set (dir_chain p) \<subseteq> dirs (snd (ensure_dir h p s))"
  by (auto simp: ensure_dir_def mkdirSync_recursive_def Let_def split: option.splits)

lemma ensure_dir_settles: "fst (ensure_dir h p s) \<noteq> Pending"
  by (simp add: ensure_dir_def mkdirSync_recursive_def Let_def split: option.splits)

lemma ensure_dir_refused:
  assumes "\<not> existsSync s p" "mkdir_error h p = Some e"
  shows "ensure_dir h p s = (Thrown e, s\<lparr>calls := calls s @ [MkdirSync p]\<rparr>)"
  using assms by (simp add: ensure_dir_def mkdirSync_recursive_def)

lemma ensure_dir_Thrown:
  "ensure_dir h p s = (Thrown e, s1) \<Longrightarrow> \<not> existsSync s p \<and> mkdir_error h p = Some e"
  by (auto simp: ensure_dir_def mkdirSync_recursive_def Let_def split: option.splits if_splits)

lemma execute_state_before:
  "execute h files0 dirs0 inputData =
     (case state_before h files0 dirs0 inputData (length inputData) of
        (Thrown e, s) \<Rightarrow> (Thrown e, s)
      | (Pending, s) \<Rightarrow> (Pending, s)
      | (Returned _, s) \<Rightarrow>
          (Returned (if length (spreadResults s) > 0
                     then prepareOutputData (spreadResults s)
                     else prepareOutputData (items s)), s))"
proof (cases "ensure_dir h (workflowDir h) (init_state files0 dirs0 inputData)")
  case (Pair r s1)
  have "items s1 = inputData"
    using ensure_dir_frame(1) [of h "workflowDir h" "init_state files0 dirs0 inputData"] Pair
    by (simp add: init_state_def)
  with Pair show ?thesis
    by (cases r) (simp_all add: execute_def state_before_def loop_run_items)
qed

lemma state_before_Suc:
  "state_before h files0 dirs0 inputData (Suc j) =
     (case state_before h files0 dirs0 inputData j of
        (Thrown e, s) \<Rightarrow> (Thrown e, s)
      | (Pending, s) \<Rightarrow> (Pending, s)
      | (Returned _, s) \<Rightarrow> loop_body h (workflowDir h) j s)"
proof (cases "ensure_dir h (workflowDir h) (init_state files0 dirs0 inputData)")
  case (Pair r s1)
  show ?thesis
  proof (cases r)
    case (Thrown e)
    with Pair show ?thesis by (simp add: state_before_def)
  next
    case Pending
    with Pair show ?thesis by (simp add: state_before_def)
  next
    case (Returned u)
    have "run_items h (workflowDir h) 0 (Suc j) s1 =
        (case run_items h (workflowDir h) 0 j s1 of
           (Thrown e, s) \<Rightarrow> (Thrown e, s)
         | (Pending, s) \<Rightarrow> (Pending, s)
         | (Returned _, s) \<Rightarrow> loop_body h (workflowDir h) j s)"
      using run_items_snoc [of h "workflowDir h" 0 j s1] unfolding add_0 .
    with Pair Returned show ?thesis
      by (simp add: state_before_def del: run_items.simps)
  qed
qed




lemma state_before_thrown_later:
  assumes "state_before h files0 dirs0 inputData j = (Thrown e, s)" "j \<le> k"
  shows "state_before h files0 dirs0 inputData k = (Thrown e, s)"
  using assms(2)
proof (induction k)
  case 0
  with assms(1) show ?case by simp
next
  case (Suc k)
  show ?case
  proof (cases "j = Suc k")
    case True
    with assms(1) show ?thesis by simp
  next
    case False
    with Suc have "state_before h files0 dirs0 inputData k = (Thrown e, s)" by simp
    then show ?thesis by (simp add: state_before_Suc)
  qed
qed








lemma snd_execute:
  "snd (execute h files0 dirs0 inputData) =
     snd (state_before h files0 dirs0 inputData (length inputData))"
  by (cases "state_before h files0 dirs0 inputData (length inputData)")
    (auto simp: execute_state_before split: outcome.splits)

lemma snd_state_before:
  "snd (state_before h files0 dirs0 inputData j) =
     (case ensure_dir h (workflowDir h) (init_state files0 dirs0 inputData) of
        (Thrown e, s1) \<Rightarrow> s1
      | (Pending, s1) \<Rightarrow> s1
      | (Returned _, s1) \<Rightarrow> snd (run_items h (workflowDir h) 0 j s1))"
  by (simp add: state_before_def split: prod.splits outcome.splits)

text \<open>
  What \<^verbatim>\<open>execute\<close> calls, in any run: first \<^verbatim>\<open>mkdirSync\<close> on the directory of the
  workflow when nothing is there, then the calls of the loop.
\<close>

lemma calls_execute:
  "\<exists>evs. calls (snd (execute h files0 dirs0 inputData)) =
       (if existsSync (init_state files0 dirs0 inputData) (workflowDir h) then []
        else [MkdirSync (workflowDir h)]) @ evs \<and>
     loop_calls h (workflowDir h) evs"
proof (cases "ensure_dir h (workflowDir h) (init_state files0 dirs0 inputData)")
  case (Pair r s1)
  have c1: "calls s1 =
      (if existsSync (init_state files0 dirs0 inputData) (workflowDir h) then []
       else [MkdirSync (workflowDir h)])"
    using ensure_dir_calls [of h "workflowDir h" "init_state files0 dirs0 inputData"] Pair
    by (simp add: init_state_def)
  show ?thesis
  proof (cases r)
    case (Thrown e)
    with Pair c1 show ?thesis
      by (simp add: snd_execute snd_state_before loop_calls_def)
  next
    case Pending
    with Pair c1 show ?thesis
      by (simp add: snd_execute snd_state_before loop_calls_def)
  next
    case (Returned u)
    with Pair c1 loop_calls_run_items [of h "workflowDir h" 0 "length inputData" s1]
    show ?thesis
      by (simp add: snd_execute snd_state_before)
  qed
qed

lemma mkdir_calls_execute:
  "filter is_MkdirSync (calls (snd (execute h files0 dirs0 inputData))) =
     (if existsSync (init_state files0 dirs0 inputData) (workflowDir h) then []
      else [MkdirSync (workflowDir h)])"
  "take (length (if existsSync (init_state files0 dirs0 inputData) (workflowDir h) then []
      else [MkdirSync (workflowDir h)])) (calls (snd (execute h files0 dirs0 inputData))) =
     (if existsSync (init_state files0 dirs0 inputData) (workflowDir h) then []
      else [MkdirSync (workflowDir h)])"
proof -
  obtain evs where e: "calls (snd (execute h files0 dirs0 inputData)) =
       (if existsSync (init_state files0 dirs0 inputData) (workflowDir h) then []
        else [MkdirSync (workflowDir h)]) @ evs" and l: "loop_calls h (workflowDir h) evs"
    using calls_execute [of h files0 dirs0 inputData] by blast
  from l have f: "filter is_MkdirSync evs = []"
    by (auto simp: loop_calls_def filter_empty_conv)
  show "filter is_MkdirSync (calls (snd (execute h files0 dirs0 inputData))) =
     (if existsSync (init_state files0 dirs0 inputData) (workflowDir h) then []
      else [MkdirSync (workflowDir h)])"
    unfolding e using f by simp
  show "take (length (if existsSync (init_state files0 dirs0 inputData) (workflowDir h) then []
      else [MkdirSync (workflowDir h)])) (calls (snd (execute h files0 dirs0 inputData))) =
     (if existsSync (init_state files0 dirs0 inputData) (workflowDir h) then []
      else [MkdirSync (workflowDir h)])"
    unfolding e by simp
qed

lemma dirs_execute:
  assumes "\<not> existsSync (init_state files0 dirs0 inputData) (workflowDir h)"
    and "mkdir_error h (workflowDir h) = None"
  shows "set (dir_chain (workflowDir h)) \<subseteq> dirs (snd (execute h files0 dirs0 inputData))"
proof (cases "ensure_dir h (workflowDir h) (init_state files0 dirs0 inputData)")
  case (Pair r s1)
  have d: "set (dir_chain (workflowDir h)) \<subseteq> dirs s1"
    using ensure_dir_dirs(2) [OF assms, of ] Pair by simp
  have "r = Returned ()"
    using ensure_dir_Thrown [of h "workflowDir h" "init_state files0 dirs0 inputData" _ s1]
      ensure_dir_settles [of h "workflowDir h" "init_state files0 dirs0 inputData"]
      Pair assms by (cases r) auto
  with Pair d show ?thesis
    by (simp add: snd_execute snd_state_before dirs_run_items)
qed

subsection \<open>Hosts that run alike\<close>

lemma try_body_cong:
  assumes "dbName (nodeParameters h' i) = dbName (nodeParameters h i)"
    and "query (nodeParameters h' i) = query (nodeParameters h i)"
    and "args (nodeParameters h' i) = args (nodeParameters h i)"
    and "(query_type (nodeParameters h' i) = ''DELETE_DATABASE'') =
         (query_type (nodeParameters h i) = ''DELETE_DATABASE'')"
    and "(query_type (nodeParameters h' i) = ''SELECT'') =
         (query_type (nodeParameters h i) = ''SELECT'')"
    and "JSON_parse h' = JSON_parse h"
    and "unlink_error h' = unlink_error h"
    and "open_error h' = open_error h"
    and "db_new h' = db_new h"
    and "db_all h' = db_all h"
    and "db_run h' = db_run h"
  shows "try_body h' dir i s = try_body h dir i s"
  unfolding try_body_def Let_def unlinkSync_def new_Database_def db_all_call_def
    db_run_call_def db_close_def opened_db_def assms
  by (rule refl)

lemma run_items_cong:
  assumes "\<And>i s. loop_body h' dir i s = loop_body h dir i s"
  shows "run_items h' dir i k s = run_items h dir i k s"
  by (induction k arbitrary: i s) (simp_all add: assms split: prod.splits outcome.splits)

lemma execute_cong:
  assumes body: "\<And>dir i s. try_body h' dir i s = try_body h dir i s"
    and cof: "continueOnFail h' = continueOnFail h"
    and wd: "workflowDir h' = workflowDir h"
    and mk: "mkdir_error h' = mkdir_error h"
  shows "execute h' files0 dirs0 inputData = execute h files0 dirs0 inputData"
proof -
  have lb: "loop_body h' dir i s = loop_body h dir i s" for dir i s
    by (simp add: loop_body_def body cof split: prod.splits outcome.splits)
  have lp: "loop h' dir i s = loop h dir i s" for dir i s
    by (simp add: loop_run_items run_items_cong [of h' dir h, OF lb])
  have en: "ensure_dir h' p s = ensure_dir h p s" for p s
    by (simp add: ensure_dir_def mkdirSync_recursive_def mk)
  show ?thesis unfolding execute_def wd lp en by (rule refl)
qed

subsection \<open>Evaluation of concrete runs\<close>

lemmas run_defs =
  execute_def ensure_dir_def init_state_def existsSync_def mkdirSync_recursive_def dir_chain_def
  loop_run_items loop_body_def turn_defs opened_db_def parent_dir_def dir_exists_def
  workflowDir_def workflowId_def dbPath_def
  path_resolve_def path_join_def path_normalize_def normalizeString_def normalize_step_def
  isAbsolute_def set_json_def index0_def spread_item_def prepareOutputData_def
  demo_host_def demo_every_def demo_params_def demo_item_def demo_parse_def demo_all_def demo_run_def
  demo_insert_def demo_select_def demo_mixed_def demo_delete_def demo_malformed_def
  demo_recover_def demo_auto_def

lemmas observe_defs = rows_of_item_def state_before_def select_rows_def

text \<open>
  A database in a directory that is not there does not open: the invocation never ends,
  even with continue-on-fail.
\<close>

lemma open_failure_example:
  "fst (execute (demo_host (demo_every (demo_insert\<lparr>dbName := ''sub/orders''\<rparr>)) True)
     Map.empty {} [demo_item 0]) = Pending"
  by (simp add: run_defs)

section \<open>The claims\<close>

subsection \<open>C1: the output is the spread list when it is not empty, the input list otherwise\<close>



subsection \<open>C2: a statement that is not a SELECT leaves \<^verbatim>\<open>{changes: 1}\<close>\<close>




subsection \<open>C3: the rows of the SELECT items, in order\<close>




subsection \<open>C4: DELETE_DATABASE\<close>

text \<open>
  Claim C4. The turn of an item whose kind is DELETE_DATABASE, in any state \<open>s\<close>, with
  \<open>path\<close> the resolved path of its database. If a database file is at \<open>path\<close> (and the
  operating system does not refuse the \<^verbatim>\<open>unlink\<close>), the turn removes the file and the
  payload of the item becomes the success record with the message
  \<^verbatim>\<open>Database <dbName> deleted successfully.\<close>; nothing else changes but the call
  \<^verbatim>\<open>unlinkSync\<close> in the trace. If nothing is at \<open>path\<close>, the file system and the trace
  stay as they are and the payload becomes the failure record with the message
  \<^verbatim>\<open>Database <dbName> does not exist.\<close>. In every case the turn makes no call to
  the driver, and when it ends without an exception the loop goes on with the next item.
\<close>

theorem delete_database_turn:
  assumes "query_type (nodeParameters h i) = ''DELETE_DATABASE''"
    and "i < length (items s)"
    and "path = dbPath dir (dbName (nodeParameters h i))"
  shows "(files s path \<noteq> None \<and> unlink_error h path = None \<longrightarrow>
       loop_body h dir i s =
         (Returned (),
          s\<lparr>items := set_json (items s) i
               (JObject [(''success'', JBool True),
                         (''message'', JString (''Database '' @ dbName (nodeParameters h i) @
                            '' deleted successfully.''))]),
            files := (files s)(path := None),
            calls := calls s @ [UnlinkSync path]\<rparr>) \<and>
       files (snd (loop_body h dir i s)) path = None \<and>
       json (items (snd (loop_body h dir i s)) ! i) =
         JObject [(''success'', JBool True),
                  (''message'', JString (''Database '' @ dbName (nodeParameters h i) @
                     '' deleted successfully.''))]) \<and>
     (\<not> existsSync s path \<longrightarrow>
       loop_body h dir i s =
         (Returned (),
          s\<lparr>items := set_json (items s) i
               (JObject [(''success'', JBool False),
                         (''message'', JString (''Database '' @ dbName (nodeParameters h i) @
                            '' does not exist.''))])\<rparr>) \<and>
       json (items (snd (loop_body h dir i s)) ! i) =
         JObject [(''success'', JBool False),
                  (''message'', JString (''Database '' @ dbName (nodeParameters h i) @
                     '' does not exist.''))]) \<and>
     filter is_driver_call (calls (snd (loop_body h dir i s))) =
       filter is_driver_call (calls s) \<and>
     (fst (loop_body h dir i s) = Returned () \<longrightarrow>
        loop h dir i s = loop h dir (Suc i) (snd (loop_body h dir i s)))"
proof -
  have a: "files s path \<noteq> None \<and> unlink_error h path = None \<longrightarrow>
       loop_body h dir i s =
         (Returned (),
          s\<lparr>items := set_json (items s) i
               (JObject [(''success'', JBool True),
                         (''message'', JString (''Database '' @ dbName (nodeParameters h i) @
                            '' deleted successfully.''))]),
            files := (files s)(path := None),
            calls := calls s @ [UnlinkSync path]\<rparr>)"
    using assms(1,3) by (auto simp: loop_body_def turn_defs existsSync_def)
  have b: "\<not> existsSync s path \<longrightarrow>
       loop_body h dir i s =
         (Returned (),
          s\<lparr>items := set_json (items s) i
               (JObject [(''success'', JBool False),
                         (''message'', JString (''Database '' @ dbName (nodeParameters h i) @
                            '' does not exist.''))])\<rparr>)"
    using assms(1,3) by (simp add: loop_body_def turn_defs)
  have c: "fst (loop_body h dir i s) = Returned () \<longrightarrow>
        loop h dir i s = loop h dir (Suc i) (snd (loop_body h dir i s))"
    using loop_step [OF assms(2), of h dir "snd (loop_body h dir i s)"]
    by (auto simp: prod_eq_iff)
  from a b c driver_calls_delete [OF assms(1), of dir s] assms(2)
  show ?thesis by (auto simp: json_set_json)
qed

theorem delete_database_turn_witness:
  "files (init_state [''/srv/databases/wf1/orders.db'' \<mapsto> []] {''/srv/databases/wf1''}
      [demo_item 0]) ''/srv/databases/wf1/orders.db'' \<noteq> None \<and>
   files (snd (loop_body (demo_host (demo_every demo_delete) False) ''/srv/databases/wf1'' 0
      (init_state [''/srv/databases/wf1/orders.db'' \<mapsto> []] {''/srv/databases/wf1''}
         [demo_item 0]))) ''/srv/databases/wf1/orders.db'' = None \<and>
   json (items (snd (loop_body (demo_host (demo_every demo_delete) False) ''/srv/databases/wf1'' 0
      (init_state [''/srv/databases/wf1/orders.db'' \<mapsto> []] {''/srv/databases/wf1''}
         [demo_item 0]))) ! 0) =
     JObject [(''success'', JBool True),
              (''message'', JString ''Database orders deleted successfully.'')] \<and>
   json (items (snd (loop_body (demo_host (demo_every demo_delete) False) ''/srv/databases/wf1'' 0
      (init_state Map.empty {''/srv/databases/wf1''} [demo_item 0]))) ! 0) =
     JObject [(''success'', JBool False),
              (''message'', JString ''Database orders does not exist.'')] \<and>
   calls (snd (loop_body (demo_host (demo_every demo_delete) False) ''/srv/databases/wf1'' 0
      (init_state Map.empty {''/srv/databases/wf1''} [demo_item 0]))) = []"
proof -
  let ?h = "demo_host (demo_every demo_delete) False"
  let ?p = "''/srv/databases/wf1/orders.db''"
  let ?s = "init_state [?p \<mapsto> []] {''/srv/databases/wf1''} [demo_item 0]"
  let ?t = "init_state Map.empty {''/srv/databases/wf1''} [demo_item 0] :: jsonv list state"
  have k: "query_type (nodeParameters ?h 0) = ''DELETE_DATABASE''"
    by (simp add: run_defs)
  have p: "?p = dbPath ''/srv/databases/wf1'' (dbName (nodeParameters ?h 0))"
    by (simp add: run_defs)
  have n: "dbName (nodeParameters ?h 0) = ''orders''"
    by (simp add: run_defs)
  have ls: "0 < length (items ?s)" and lt: "0 < length (items ?t)"
    by (simp_all add: init_state_def)
  have fs: "files ?s ?p \<noteq> None" and u: "unlink_error ?h ?p = None"
    by (simp_all add: init_state_def demo_host_def)
  have ft: "\<not> existsSync ?t ?p"
    by (simp add: init_state_def existsSync_def)
  from delete_database_turn [OF k ls p] fs u
  have "files (snd (loop_body ?h ''/srv/databases/wf1'' 0 ?s)) ?p = None \<and>
      json (items (snd (loop_body ?h ''/srv/databases/wf1'' 0 ?s)) ! 0) =
        JObject [(''success'', JBool True),
                 (''message'', JString (''Database '' @ dbName (nodeParameters ?h 0) @
                    '' deleted successfully.''))]"
    by blast
  then have a: "files (snd (loop_body ?h ''/srv/databases/wf1'' 0 ?s)) ?p = None \<and>
      json (items (snd (loop_body ?h ''/srv/databases/wf1'' 0 ?s)) ! 0) =
        JObject [(''success'', JBool True),
                 (''message'', JString ''Database orders deleted successfully.'')]"
    unfolding n by simp
  from delete_database_turn [OF k lt p] ft
  have "loop_body ?h ''/srv/databases/wf1'' 0 ?t =
      (Returned (), ?t\<lparr>items := set_json (items ?t) 0
         (JObject [(''success'', JBool False),
                   (''message'', JString (''Database '' @ dbName (nodeParameters ?h 0) @
                      '' does not exist.''))])\<rparr>) \<and>
      json (items (snd (loop_body ?h ''/srv/databases/wf1'' 0 ?t)) ! 0) =
        JObject [(''success'', JBool False),
                 (''message'', JString (''Database '' @ dbName (nodeParameters ?h 0) @
                    '' does not exist.''))]"
    by blast
  then have b: "loop_body ?h ''/srv/databases/wf1'' 0 ?t =
      (Returned (), ?t\<lparr>items := set_json (items ?t) 0
         (JObject [(''success'', JBool False),
                   (''message'', JString ''Database orders does not exist.'')])\<rparr>) \<and>
      json (items (snd (loop_body ?h ''/srv/databases/wf1'' 0 ?t)) ! 0) =
        JObject [(''success'', JBool False),
                 (''message'', JString ''Database orders does not exist.'')]"
    unfolding n by (simp add: init_state_def set_json_def)
  then have c: "calls (snd (loop_body ?h ''/srv/databases/wf1'' 0 ?t)) = []"
    by (simp add: init_state_def)
  from a b c fs show ?thesis by blast
qed

subsection \<open>C5: malformed \<^verbatim>\<open>args\<close> without continue-on-fail\<close>

text \<open>
  Claim C5, amended. Continue-on-fail is off, and \<^verbatim>\<open>execute\<close> arrives in state \<open>si\<close> at
  an item \<open>i\<close> whose kind is not DELETE_DATABASE and whose \<^verbatim>\<open>args\<close> do not parse, with
  error \<open>e\<close>. Then the turn throws \<open>e\<close> and leaves \<open>si\<close> as it is, so no call is made
  for the item, the driver is not opened; \<^verbatim>\<open>execute\<close> ends with the exception \<open>e\<close> in
  that same state, with no output; and no later item is arrived at.
\<close>

theorem malformed_args_abort:
  assumes "\<not> continueOnFail h"
    and "i < length inputData"
    and "state_before h files0 dirs0 inputData i = (Returned (), si)"
    and "query_type (nodeParameters h i) \<noteq> ''DELETE_DATABASE''"
    and "JSON_parse h (args (nodeParameters h i)) = Inl e"
  shows "loop_body h (workflowDir h) i si = (Thrown e, si) \<and>
     execute h files0 dirs0 inputData = (Thrown e, si) \<and>
     (\<forall>k > i. state_before h files0 dirs0 inputData k = (Thrown e, si))"
proof -
  have t: "loop_body h (workflowDir h) i si = (Thrown e, si)"
    using assms(1) try_body_parse_error [OF assms(4,5), of "workflowDir h" si]
    by (simp add: loop_body_def)
  have n: "state_before h files0 dirs0 inputData (Suc i) = (Thrown e, si)"
    using assms(3) t by (simp add: state_before_Suc)
  have later: "state_before h files0 dirs0 inputData k = (Thrown e, si)" if "i < k" for k
    using state_before_thrown_later [OF n, of k] that by simp
  from later [OF assms(2)] have "execute h files0 dirs0 inputData = (Thrown e, si)"
    by (simp add: execute_state_before)
  with t later show ?thesis by simp
qed

theorem malformed_args_abort_witness:
  "execute (demo_host (demo_every (demo_malformed ''INSERT'')) False) Map.empty {''/srv/databases/wf1''}
     [demo_item 0, demo_item 1] =
   (Thrown ''Unexpected end of JSON input'',
    init_state Map.empty {''/srv/databases/wf1''} [demo_item 0, demo_item 1])"
proof -
  let ?h = "demo_host (demo_every (demo_malformed ''INSERT'')) False"
  let ?s = "init_state Map.empty {''/srv/databases/wf1''} [demo_item 0, demo_item 1]
    :: jsonv list state"
  have c: "\<not> continueOnFail ?h" by (simp add: demo_host_def)
  have l: "0 < length [demo_item 0, demo_item 1]" by simp
  have b: "state_before ?h Map.empty {''/srv/databases/wf1''} [demo_item 0, demo_item 1] 0 =
      (Returned (), ?s)"
    by (simp add: observe_defs run_defs)
  have k: "query_type (nodeParameters ?h 0) \<noteq> ''DELETE_DATABASE''"
    by (simp add: run_defs)
  have p: "JSON_parse ?h (args (nodeParameters ?h 0)) = Inl ''Unexpected end of JSON input''"
    by (simp add: run_defs)
  from malformed_args_abort [OF c l b k p] show ?thesis by simp
qed

text \<open>
  The claim as stated fails for an item of kind DELETE_DATABASE: its \<^verbatim>\<open>args\<close> are never
  parsed. With malformed \<^verbatim>\<open>args\<close> and continue-on-fail off, \<^verbatim>\<open>execute\<close> returns
  an output.
\<close>

theorem malformed_args_delete_database_counterexample:
  "JSON_parse (demo_host (demo_every (demo_malformed ''DELETE_DATABASE'')) False)
     (args (nodeParameters (demo_host (demo_every (demo_malformed ''DELETE_DATABASE'')) False) 0)) =
     Inl ''Unexpected end of JSON input'' \<and>
   \<not> continueOnFail (demo_host (demo_every (demo_malformed ''DELETE_DATABASE'')) False) \<and>
   fst (execute (demo_host (demo_every (demo_malformed ''DELETE_DATABASE'')) False) Map.empty {}
     [demo_item 0]) =
     Returned [[\<lparr>json = JObject [(''success'', JBool False),
                   (''message'', JString ''Database orders does not exist.'')],
                binary = None\<rparr>]]"
  by (simp add: run_defs)

subsection \<open>C6: continue-on-fail\<close>

text \<open>
  Claim C6, amended. Continue-on-fail is on. Whenever the \<^verbatim>\<open>try\<close> block of item \<open>i\<close>
  throws an exception \<open>e\<close>, the turn ends without an exception, the payload of item \<open>i\<close>
  is \<^verbatim>\<open>{error: e}\<close> and the loop goes on with item \<open>i + 1\<close> as after any other turn; no
  exception leaves the loop. Malformed \<^verbatim>\<open>args\<close>, an error the driver reports for the
  statement of a SELECT or of another kind, and a refused \<^verbatim>\<open>unlink\<close> are exceptions of
  the \<^verbatim>\<open>try\<close> block (the four conjuncts after the second). A refused creation of the
  directory of the workflow is not: it comes before the loop, and \<^verbatim>\<open>execute\<close> ends with
  that exception and every item as it was, continue-on-fail or not (last conjunct).
\<close>

theorem continue_on_fail_turn:
  assumes "continueOnFail h"
    and "i < length (items s)"
    and "path = dbPath dir (dbName (nodeParameters h i))"
  shows "(\<forall>e s1. try_body h dir i s = (Thrown e, s1) \<longrightarrow>
        loop_body h dir i s =
          (Returned (),
           s1\<lparr>items := set_json (items s1) i (JObject [(''error'', JString e)])\<rparr>) \<and>
        json (items (snd (loop_body h dir i s)) ! i) = JObject [(''error'', JString e)] \<and>
        loop h dir i s = loop h dir (Suc i) (snd (loop_body h dir i s))) \<and>
     (\<forall>e. fst (loop h dir i s) \<noteq> Thrown e) \<and>
     (\<forall>e. query_type (nodeParameters h i) \<noteq> ''DELETE_DATABASE'' \<and>
        JSON_parse h (args (nodeParameters h i)) = Inl e \<longrightarrow>
        try_body h dir i s = (Thrown e, s)) \<and>
     (\<forall>e a d. query_type (nodeParameters h i) = ''SELECT'' \<and>
        JSON_parse h (args (nodeParameters h i)) = Inr a \<and>
        opened_db h s path = Some d \<and>
        db_all h d (query (nodeParameters h i)) a = Inl e \<longrightarrow>
        fst (try_body h dir i s) = Thrown e) \<and>
     (\<forall>e a d. query_type (nodeParameters h i) \<noteq> ''SELECT'' \<and>
        query_type (nodeParameters h i) \<noteq> ''DELETE_DATABASE'' \<and>
        JSON_parse h (args (nodeParameters h i)) = Inr a \<and>
        opened_db h s path = Some d \<and>
        db_run h d (query (nodeParameters h i)) a = Inl e \<longrightarrow>
        fst (try_body h dir i s) = Thrown e) \<and>
     (\<forall>e. query_type (nodeParameters h i) = ''DELETE_DATABASE'' \<and>
        files s path \<noteq> None \<and> unlink_error h path = Some e \<longrightarrow>
        fst (try_body h dir i s) = Thrown e) \<and>
     (\<forall>e. \<not> existsSync (init_state files0 dirs0 inputData) (workflowDir h) \<and>
        mkdir_error h (workflowDir h) = Some e \<longrightarrow>
        fst (execute h files0 dirs0 inputData) = Thrown e \<and>
        items (snd (execute h files0 dirs0 inputData)) = inputData)"
proof -
  have caught: "loop_body h dir i s =
          (Returned (),
           s1\<lparr>items := set_json (items s1) i (JObject [(''error'', JString e)])\<rparr>) \<and>
        json (items (snd (loop_body h dir i s)) ! i) = JObject [(''error'', JString e)] \<and>
        loop h dir i s = loop h dir (Suc i) (snd (loop_body h dir i s))"
    if t: "try_body h dir i s = (Thrown e, s1)" for e s1
  proof -
    have b: "loop_body h dir i s =
         (Returned (),
          s1\<lparr>items := set_json (items s1) i (JObject [(''error'', JString e)])\<rparr>)"
      using assms(1) t by (simp add: loop_body_def)
    have "length (items s1) = length (items s)"
      using length_items_try_body [of h dir i s] t by simp
    with assms(2) b
    have j: "json (items (snd (loop_body h dir i s)) ! i) = JObject [(''error'', JString e)]"
      by (simp add: json_set_json)
    have l: "loop h dir i s = loop h dir (Suc i) (snd (loop_body h dir i s))"
      using loop_step [OF assms(2) b] b by simp
    from b j l show ?thesis by simp
  qed
  have never: "fst (loop h dir i s) \<noteq> Thrown e" for e
    by (simp add: loop_run_items run_items_continue [OF assms(1)])
  have parse: "try_body h dir i s = (Thrown e, s)"
    if "query_type (nodeParameters h i) \<noteq> ''DELETE_DATABASE''"
      and "JSON_parse h (args (nodeParameters h i)) = Inl e" for e
    using that by (rule try_body_parse_error)
  have sel: "fst (try_body h dir i s) = Thrown e"
    if "query_type (nodeParameters h i) = ''SELECT''"
      and "JSON_parse h (args (nodeParameters h i)) = Inr a"
      and "opened_db h s path = Some d"
      and "db_all h d (query (nodeParameters h i)) a = Inl e" for e a d
    using that unfolding assms(3) by (rule try_body_select_error)
  have run: "fst (try_body h dir i s) = Thrown e"
    if "query_type (nodeParameters h i) \<noteq> ''SELECT''"
      and "query_type (nodeParameters h i) \<noteq> ''DELETE_DATABASE''"
      and "JSON_parse h (args (nodeParameters h i)) = Inr a"
      and "opened_db h s path = Some d"
      and "db_run h d (query (nodeParameters h i)) a = Inl e" for e a d
    using that unfolding assms(3) by (rule try_body_run_error)
  have unl: "fst (try_body h dir i s) = Thrown e"
    if "query_type (nodeParameters h i) = ''DELETE_DATABASE''"
      and "files s path \<noteq> None" and "unlink_error h path = Some e" for e
    using that unfolding assms(3) by (rule try_body_unlink_error)
  have mk: "fst (execute h files0 dirs0 inputData) = Thrown e \<and>
        items (snd (execute h files0 dirs0 inputData)) = inputData"
    if "\<not> existsSync (init_state files0 dirs0 inputData) (workflowDir h)"
      and "mkdir_error h (workflowDir h) = Some e" for e
    using ensure_dir_refused [OF that]
    by (simp add: execute_def init_state_def)
  from caught never parse sel run unl mk show ?thesis by blast
qed

theorem continue_on_fail_turn_witness:
  "json (items (snd (loop_body (demo_host demo_recover True) ''/srv/databases/wf1'' 0
      (init_state Map.empty {''/srv/databases/wf1''} [demo_item 0, demo_item 1]))) ! 0) =
     JObject [(''error'', JString ''Unexpected end of JSON input'')] \<and>
   loop (demo_host demo_recover True) ''/srv/databases/wf1'' 0
      (init_state Map.empty {''/srv/databases/wf1''} [demo_item 0, demo_item 1]) =
   loop (demo_host demo_recover True) ''/srv/databases/wf1'' (Suc 0)
      (snd (loop_body (demo_host demo_recover True) ''/srv/databases/wf1'' 0
         (init_state Map.empty {''/srv/databases/wf1''} [demo_item 0, demo_item 1]))) \<and>
   items (snd (loop (demo_host demo_recover True) ''/srv/databases/wf1'' 0
      (init_state Map.empty {''/srv/databases/wf1''} [demo_item 0, demo_item 1]))) =
     [\<lparr>json = JObject [(''error'', JString ''Unexpected end of JSON input'')], binary = None\<rparr>,
      \<lparr>json = JObject [(''changes'', JNumber 1)], binary = None\<rparr>]"
proof -
  let ?h = "demo_host demo_recover True"
  let ?s = "init_state Map.empty {''/srv/databases/wf1''} [demo_item 0, demo_item 1]
    :: jsonv list state"
  have c: "continueOnFail ?h" by (simp add: demo_host_def)
  have l: "0 < length (items ?s)" by (simp add: init_state_def)
  have p: "''/srv/databases/wf1/orders.db'' =
      dbPath ''/srv/databases/wf1'' (dbName (nodeParameters ?h 0))"
    by (simp add: run_defs)
  have k: "query_type (nodeParameters ?h 0) \<noteq> ''DELETE_DATABASE''"
    and a: "JSON_parse ?h (args (nodeParameters ?h 0)) = Inl ''Unexpected end of JSON input''"
    by (simp_all add: run_defs)
  note w = continue_on_fail_turn [OF c l p, where ?files0.0 = Map.empty and ?dirs0.0 = "{}"
    and inputData = "[]"]
  from w k a
  have t: "try_body ?h ''/srv/databases/wf1'' 0 ?s = (Thrown ''Unexpected end of JSON input'', ?s)"
    by blast
  from w t
  have j: "json (items (snd (loop_body ?h ''/srv/databases/wf1'' 0 ?s)) ! 0) =
      JObject [(''error'', JString ''Unexpected end of JSON input'')] \<and>
    loop ?h ''/srv/databases/wf1'' 0 ?s =
      loop ?h ''/srv/databases/wf1'' (Suc 0) (snd (loop_body ?h ''/srv/databases/wf1'' 0 ?s))"
    by blast
  have e: "items (snd (loop ?h ''/srv/databases/wf1'' 0 ?s)) =
     [\<lparr>json = JObject [(''error'', JString ''Unexpected end of JSON input'')], binary = None\<rparr>,
      \<lparr>json = JObject [(''changes'', JNumber 1)], binary = None\<rparr>]"
    by (simp add: run_defs)
  from j e show ?thesis by blast
qed

text \<open>
  The claim as stated fails for the creation of the directory, a failure of the file
  system that the claim lists: with continue-on-fail on and \<^verbatim>\<open>mkdirSync\<close> refused,
  \<^verbatim>\<open>execute\<close> ends with the exception, no payload becomes an error record and no item
  has its turn.
\<close>

theorem mkdir_failure_not_caught_counterexample:
  "continueOnFail ((demo_host (demo_every demo_insert) True)\<lparr>mkdir_error := demo_refuse\<rparr>) \<and>
   execute ((demo_host (demo_every demo_insert) True)\<lparr>mkdir_error := demo_refuse\<rparr>)
     Map.empty {} [demo_item 0, demo_item 1] =
   (Thrown ''EACCES: permission denied, mkdir'',
    (init_state Map.empty {} [demo_item 0, demo_item 1])
      \<lparr>calls := [MkdirSync ''/srv/databases/wf1'']\<rparr>)"
  by (simp add: run_defs demo_refuse_def)

subsection \<open>C7: AUTO runs as any kind that is not SELECT or DELETE_DATABASE\<close>

text \<open>
  Claim C7. Give every item a kind \<open>kind i\<close> in place of its own, where an item whose
  kind changes has neither SELECT nor DELETE_DATABASE before or after (AUTO for INSERT,
  CREATE for AUTO, and so on): the invocation gives the same outcome, output and final
  state, calls included. And an item of kind AUTO whose database opens and whose statement
  succeeds goes through
  \<^verbatim>\<open>db.run\<close> and leaves \<^verbatim>\<open>{changes: 1}\<close> whatever its query says: the query is not
  looked at.
\<close>

theorem auto_is_mutating_branch:
  assumes "\<forall>i. kind i = query_type (nodeParameters h i) \<or>
      (query_type (nodeParameters h i) \<noteq> ''SELECT'' \<and>
       query_type (nodeParameters h i) \<noteq> ''DELETE_DATABASE'' \<and>
       kind i \<noteq> ''SELECT'' \<and> kind i \<noteq> ''DELETE_DATABASE'')"
  shows "execute (h\<lparr>nodeParameters := \<lambda>i. (nodeParameters h i)\<lparr>query_type := kind i\<rparr>\<rparr>)
       files0 dirs0 inputData =
     execute h files0 dirs0 inputData \<and>
     (\<forall>i dir s a d d'.
        query_type (nodeParameters h i) = ''AUTO'' \<and>
        JSON_parse h (args (nodeParameters h i)) = Inr a \<and>
        opened_db h s (dbPath dir (dbName (nodeParameters h i))) = Some d \<and>
        db_run h d (query (nodeParameters h i)) a = Inr d'
        \<longrightarrow> loop_body h dir i s =
          (Returned (),
           s\<lparr>items := set_json (items s) i (JObject [(''changes'', JNumber 1)]),
             files := (files s)(dbPath dir (dbName (nodeParameters h i)) \<mapsto> d'),
             calls := calls s @
               [NewDatabase (dbPath dir (dbName (nodeParameters h i))),
                DbRun (dbPath dir (dbName (nodeParameters h i))) (query (nodeParameters h i)) a,
                DbClose (dbPath dir (dbName (nodeParameters h i)))]\<rparr>))"
proof -
  let ?h' = "h\<lparr>nodeParameters := \<lambda>i. (nodeParameters h i)\<lparr>query_type := kind i\<rparr>\<rparr>"
  have body: "try_body ?h' dir i s = try_body h dir i s" for dir i s
  proof -
    from assms have "kind i = query_type (nodeParameters h i) \<or>
      (query_type (nodeParameters h i) \<noteq> ''SELECT'' \<and>
       query_type (nodeParameters h i) \<noteq> ''DELETE_DATABASE'' \<and>
       kind i \<noteq> ''SELECT'' \<and> kind i \<noteq> ''DELETE_DATABASE'')" ..
    then show ?thesis
      by (intro try_body_cong) auto
  qed
  have "execute ?h' files0 dirs0 inputData = execute h files0 dirs0 inputData"
    by (rule execute_cong) (simp_all add: body workflowDir_def workflowId_def)
  moreover have "loop_body h dir i s =
          (Returned (),
           s\<lparr>items := set_json (items s) i (JObject [(''changes'', JNumber 1)]),
             files := (files s)(dbPath dir (dbName (nodeParameters h i)) \<mapsto> d'),
             calls := calls s @
               [NewDatabase (dbPath dir (dbName (nodeParameters h i))),
                DbRun (dbPath dir (dbName (nodeParameters h i))) (query (nodeParameters h i)) a,
                DbClose (dbPath dir (dbName (nodeParameters h i)))]\<rparr>)"
    if "query_type (nodeParameters h i) = ''AUTO''"
      and "JSON_parse h (args (nodeParameters h i)) = Inr a"
      and "opened_db h s (dbPath dir (dbName (nodeParameters h i))) = Some d"
      and "db_run h d (query (nodeParameters h i)) a = Inr d'" for i dir s a d d'
    by (rule loop_body_mutating) (use that in simp_all)
  ultimately show ?thesis by blast
qed

theorem auto_is_mutating_branch_witness:
  "execute (demo_host (demo_every demo_auto) False) Map.empty {} [demo_item 0] =
   execute (demo_host (demo_every (demo_auto\<lparr>query_type := ''INSERT''\<rparr>)) False) Map.empty {}
     [demo_item 0] \<and>
   fst (execute (demo_host (demo_every demo_auto) False) Map.empty {} [demo_item 0]) =
     Returned [[\<lparr>json = JObject [(''changes'', JNumber 1)], binary = None\<rparr>]] \<and>
   calls (snd (execute (demo_host (demo_every demo_auto) False) Map.empty {} [demo_item 0])) =
     [MkdirSync ''/srv/databases/wf1'',
      NewDatabase ''/srv/databases/wf1/orders.db'',
      DbRun ''/srv/databases/wf1/orders.db'' ''SELECT * FROM t'' (JObject []),
      DbClose ''/srv/databases/wf1/orders.db'']"
proof -
  let ?h = "demo_host (demo_every (demo_auto\<lparr>query_type := ''INSERT''\<rparr>)) False"
  have k: "\<forall>i. ''AUTO'' = query_type (nodeParameters ?h i) \<or>
      (query_type (nodeParameters ?h i) \<noteq> ''SELECT'' \<and>
       query_type (nodeParameters ?h i) \<noteq> ''DELETE_DATABASE'' \<and>
       ''AUTO'' \<noteq> ''SELECT'' \<and> ''AUTO'' \<noteq> ''DELETE_DATABASE'')"
    by (simp add: demo_host_def demo_every_def demo_auto_def demo_params_def)
  have h: "?h\<lparr>nodeParameters := \<lambda>i. (nodeParameters ?h i)\<lparr>query_type := ''AUTO''\<rparr>\<rparr> =
      demo_host (demo_every demo_auto) False"
    by (simp add: demo_host_def demo_every_def demo_auto_def demo_params_def)
  have e: "execute (demo_host (demo_every demo_auto) False) Map.empty {} [demo_item 0] =
      execute ?h Map.empty {} [demo_item 0]"
    using auto_is_mutating_branch [where kind = "\<lambda>i. ''AUTO''" and h = ?h, OF k] unfolding h by blast
  have f: "fst (execute (demo_host (demo_every demo_auto) False) Map.empty {} [demo_item 0]) =
     Returned [[\<lparr>json = JObject [(''changes'', JNumber 1)], binary = None\<rparr>]]"
    by (simp add: run_defs)
  have c: "calls (snd (execute (demo_host (demo_every demo_auto) False) Map.empty {} [demo_item 0])) =
     [MkdirSync ''/srv/databases/wf1'',
      NewDatabase ''/srv/databases/wf1/orders.db'',
      DbRun ''/srv/databases/wf1/orders.db'' ''SELECT * FROM t'' (JObject []),
      DbClose ''/srv/databases/wf1/orders.db'']"
    by (simp add: run_defs)
  from e f c show ?thesis by blast
qed

subsection \<open>C8: the path of \<^verbatim>\<open>orders\<close> in workflow \<^verbatim>\<open>wf1\<close>\<close>

text \<open>
  Claim C8. The working directory is the absolute path of the plain segments \<open>segs\<close>, the
  workflow is \<^verbatim>\<open>wf1\<close> and the item names the database \<^verbatim>\<open>orders\<close>. Then the directory
  of the workflow is \<^verbatim>\<open>databases/wf1\<close> under the working directory and the file of the
  database is \<^verbatim>\<open>databases/wf1/orders.db\<close> under it. In any run, whatever its outcome,
  \<^verbatim>\<open>mkdirSync\<close> is called on that directory once when nothing is there and not at all
  otherwise, and the call is the first of the run, before any call of the loop; when the
  operating system does not refuse it, the directory and every directory above it are
  there at the end.
\<close>

theorem orders_database_path:
  assumes "\<forall>seg \<in> set segs. plain_segment seg"
    and "cwd h = abs_path segs"
    and "getWorkflow h = Some w"
    and "workflow_id w = Str ''wf1''"
    and "dbName (nodeParameters h i) = ''orders''"
  shows "workflowDir h = abs_path (segs @ [''databases'', ''wf1'']) \<and>
     dbPath (workflowDir h) (dbName (nodeParameters h i)) =
       abs_path (segs @ [''databases'', ''wf1'', ''orders.db'']) \<and>
     filter is_MkdirSync (calls (snd (execute h files0 dirs0 inputData))) =
       (if existsSync (init_state files0 dirs0 inputData) (workflowDir h) then []
        else [MkdirSync (workflowDir h)]) \<and>
     take (length (if existsSync (init_state files0 dirs0 inputData) (workflowDir h) then []
         else [MkdirSync (workflowDir h)])) (calls (snd (execute h files0 dirs0 inputData))) =
       (if existsSync (init_state files0 dirs0 inputData) (workflowDir h) then []
        else [MkdirSync (workflowDir h)]) \<and>
     (\<not> existsSync (init_state files0 dirs0 inputData) (workflowDir h) \<and>
      mkdir_error h (workflowDir h) = None \<longrightarrow>
        (\<forall>k. 0 < k \<and> k \<le> length segs + 2 \<longrightarrow>
           abs_path (take k (segs @ [''databases'', ''wf1''])) \<in>
             dirs (snd (execute h files0 dirs0 inputData))))"
proof -
  have wid: "workflowId h = ''wf1''"
    using assms(3,4) by (simp add: workflowId_def)
  have wd: "workflowDir h = abs_path (segs @ [''databases'', ''wf1''])"
    using path_resolve_abs_path [OF assms(1) plain_wf1(1)] assms(2) wid
    by (simp add: workflowDir_def)
  have pl: "\<forall>seg \<in> set (segs @ [''databases'', ''wf1'']). plain_segment seg"
    using assms(1) plain_wf1 by simp
  have db: "dbPath (workflowDir h) (dbName (nodeParameters h i)) =
       abs_path (segs @ [''databases'', ''wf1'', ''orders.db''])"
    using dbPath_abs_path [OF pl, of "''orders''"] assms(5) wd by simp
  have dd: "abs_path (take k (segs @ [''databases'', ''wf1''])) \<in>
             dirs (snd (execute h files0 dirs0 inputData))"
    if "\<not> existsSync (init_state files0 dirs0 inputData) (workflowDir h)"
      and "mkdir_error h (workflowDir h) = None"
      and "0 < k" and "k \<le> length segs + 2" for k
  proof -
    have "abs_path (take k (segs @ [''databases'', ''wf1''])) \<in> set (dir_chain (workflowDir h))"
      unfolding wd using that(3,4) by (intro dir_chain_abs_path [OF pl]) simp_all
    with dirs_execute [OF that(1,2)] show ?thesis by blast
  qed
  from wd db dd
    mkdir_calls_execute [where h = h and ?files0.0 = files0 and ?dirs0.0 = dirs0
      and inputData = inputData]
  show ?thesis by blast
qed

theorem orders_database_path_witness:
  "workflowDir (demo_host (demo_every demo_insert) False) = ''/srv/databases/wf1'' \<and>
   dbPath (workflowDir (demo_host (demo_every demo_insert) False))
     (dbName (nodeParameters (demo_host (demo_every demo_insert) False) 0)) =
     ''/srv/databases/wf1/orders.db'' \<and>
   filter is_MkdirSync (calls (snd (execute (demo_host (demo_every demo_insert) False) Map.empty {}
     [demo_item 0, demo_item 1]))) = [MkdirSync ''/srv/databases/wf1''] \<and>
   ''/srv/databases/wf1'' \<in> dirs (snd (execute (demo_host (demo_every demo_insert) False) Map.empty {}
     [demo_item 0, demo_item 1])) \<and>
   ''/srv/databases'' \<in> dirs (snd (execute (demo_host (demo_every demo_insert) False) Map.empty {}
     [demo_item 0, demo_item 1]))"
proof -
  let ?h = "demo_host (demo_every demo_insert) False"
  let ?s0 = "init_state Map.empty {} [demo_item 0, demo_item 1] :: jsonv list state"
  let ?sf = "snd (execute ?h Map.empty {} [demo_item 0, demo_item 1])"
  have p: "\<forall>seg \<in> set [''srv'']. plain_segment seg" by (simp add: plain_segment_def)
  have c: "cwd ?h = abs_path [''srv'']" by (simp add: demo_host_def abs_path_def)
  have g: "getWorkflow ?h = Some \<lparr>workflow_id = Str ''wf1''\<rparr>" by (simp add: demo_host_def)
  have w: "workflow_id \<lparr>workflow_id = Str ''wf1''\<rparr> = Str ''wf1''" by simp
  have n: "dbName (nodeParameters ?h 0) = ''orders''"
    by (simp add: demo_host_def demo_every_def demo_insert_def demo_params_def)
  note t = orders_database_path [OF p c g w n, of Map.empty "{}" "[demo_item 0, demo_item 1]"]
  have a: "abs_path ([''srv''] @ [''databases'', ''wf1'']) = ''/srv/databases/wf1''"
    "abs_path ([''srv''] @ [''databases'', ''wf1'', ''orders.db'']) = ''/srv/databases/wf1/orders.db''"
    "abs_path (take 2 ([''srv''] @ [''databases'', ''wf1''])) = ''/srv/databases''"
    "abs_path (take 3 ([''srv''] @ [''databases'', ''wf1''])) = ''/srv/databases/wf1''"
    by (simp_all add: abs_path_def)
  from t have wd: "workflowDir ?h = ''/srv/databases/wf1''" unfolding a by blast
  from t have db: "dbPath (workflowDir ?h) (dbName (nodeParameters ?h 0)) =
      ''/srv/databases/wf1/orders.db''" unfolding a by blast
  have ne: "\<not> existsSync ?s0 (workflowDir ?h)"
    by (simp add: existsSync_def init_state_def)
  have me: "mkdir_error ?h (workflowDir ?h) = None" by (simp add: demo_host_def)
  from t have "filter is_MkdirSync (calls ?sf) =
      (if existsSync ?s0 (workflowDir ?h)
       then [] else [MkdirSync (workflowDir ?h)])"
    by blast
  with ne have f: "filter is_MkdirSync (calls ?sf) = [MkdirSync (workflowDir ?h)]"
    by simp
  from t ne me have d: "\<forall>k. 0 < k \<and> k \<le> length [''srv''] + 2 \<longrightarrow>
      abs_path (take k ([''srv''] @ [''databases'', ''wf1''])) \<in> dirs ?sf"
    by blast
  have "abs_path (take 3 ([''srv''] @ [''databases'', ''wf1''])) \<in> dirs ?sf"
    by (rule d [rule_format]) simp
  then have d3: "''/srv/databases/wf1'' \<in> dirs ?sf" unfolding a(4) .
  have "abs_path (take 2 ([''srv''] @ [''databases'', ''wf1''])) \<in> dirs ?sf"
    by (rule d [rule_format]) simp
  then have d2: "''/srv/databases'' \<in> dirs ?sf" unfolding a(3) .
  from wd db f d3 d2 show ?thesis by simp
qed

subsection \<open>C9: the parameter \<^verbatim>\<open>spread\<close> is never read\<close>

text \<open>
  Claim C9. Two invocations that differ in the values of \<^verbatim>\<open>spread\<close> only, for any
  items, give the same outcome, the same output and the same final state, calls included.
\<close>

theorem spread_never_read:
  "execute (h\<lparr>nodeParameters := \<lambda>i. (nodeParameters h i)\<lparr>spread := b i\<rparr>\<rparr>)
     files0 dirs0 inputData =
   execute h files0 dirs0 inputData"
proof (rule execute_cong)
  fix dir i s
  show "try_body (h\<lparr>nodeParameters := \<lambda>i. (nodeParameters h i)\<lparr>spread := b i\<rparr>\<rparr>) dir i s =
      try_body h dir i s"
    by (rule try_body_cong) simp_all
qed (simp_all add: workflowDir_def workflowId_def)

theorem spread_never_read_witness:
  "execute (demo_host (demo_every (demo_select\<lparr>spread := True\<rparr>)) False) Map.empty {}
     [demo_item 0, demo_item 1] =
   execute (demo_host (demo_every demo_select) False) Map.empty {} [demo_item 0, demo_item 1]"
proof -
  have "(demo_host (demo_every demo_select) False)
      \<lparr>nodeParameters := \<lambda>i. (nodeParameters (demo_host (demo_every demo_select) False) i)
         \<lparr>spread := True\<rparr>\<rparr> = demo_host (demo_every (demo_select\<lparr>spread := True\<rparr>)) False"
    by (simp add: demo_host_def demo_every_def)
  with spread_never_read [where h = "demo_host (demo_every demo_select) False" and b = "\<lambda>i. True"
      and ?files0.0 = Map.empty and ?dirs0.0 = "{}" and inputData = "[demo_item 0, demo_item 1]"]
  show ?thesis by simp
qed

subsection \<open>C10: the workflow identifier \<^verbatim>\<open>default_workflow\<close>\<close>

text \<open>
  Claim C10, amended. The working directory is the absolute path of the plain segments
  \<open>segs\<close>, and
  the host gives no workflow descriptor, or one whose \<^verbatim>\<open>id\<close> is undefined, null or the
  empty string. Then the workflow identifier is \<^verbatim>\<open>default_workflow\<close>, the directory of
  the workflow is \<^verbatim>\<open>databases/default_workflow\<close> under the working directory, it is the
  directory \<^verbatim>\<open>execute\<close> makes when nothing is there, every other call of the run is on
  the path of an item's database joined to that directory, and the database of an item
  whose \<^verbatim>\<open>dbName\<close> is a file name (it has no slash) is the file
  \<^verbatim>\<open>databases/default_workflow/<dbName>.db\<close> under the working directory.
\<close>

theorem default_workflow_directory:
  assumes "\<forall>seg \<in> set segs. plain_segment seg"
    and "cwd h = abs_path segs"
    and "getWorkflow h = None \<or>
      (\<exists>w. getWorkflow h = Some w \<and>
         (workflow_id w = Undefined \<or> workflow_id w = Null \<or> workflow_id w = Str []))"
  shows "workflowId h = ''default_workflow'' \<and>
     workflowDir h = abs_path (segs @ [''databases'', ''default_workflow'']) \<and>
     filter is_MkdirSync (calls (snd (execute h files0 dirs0 inputData))) =
       (if existsSync (init_state files0 dirs0 inputData)
             (abs_path (segs @ [''databases'', ''default_workflow'']))
        then []
        else [MkdirSync (abs_path (segs @ [''databases'', ''default_workflow'']))]) \<and>
     (\<forall>ev \<in> set (calls (snd (execute h files0 dirs0 inputData))).
        is_MkdirSync ev \<or>
        (\<exists>i. event_path ev =
           dbPath (abs_path (segs @ [''databases'', ''default_workflow'']))
             (dbName (nodeParameters h i)))) \<and>
     (\<forall>i. CHR ''/'' \<notin> set (dbName (nodeParameters h i)) \<longrightarrow>
        dbPath (workflowDir h) (dbName (nodeParameters h i)) =
          abs_path (segs @ [''databases'', ''default_workflow'',
            dbName (nodeParameters h i) @ ''.db'']))"
proof -
  have wid: "workflowId h = ''default_workflow''"
    using assms(3) by (auto simp: workflowId_def)
  have wd: "workflowDir h = abs_path (segs @ [''databases'', ''default_workflow''])"
    using path_resolve_abs_path [OF assms(1) plain_wf1(3)] assms(2) wid
    by (simp add: workflowDir_def)
  have pl: "\<forall>seg \<in> set (segs @ [''databases'', ''default_workflow'']). plain_segment seg"
    using assms(1) plain_wf1 by simp
  have db: "dbPath (workflowDir h) (dbName (nodeParameters h i)) =
       abs_path (segs @ [''databases'', ''default_workflow'',
         dbName (nodeParameters h i) @ ''.db''])"
    if "CHR ''/'' \<notin> set (dbName (nodeParameters h i))" for i
    using dbPath_abs_path [OF pl that] wd by simp
  have mk: "filter is_MkdirSync (calls (snd (execute h files0 dirs0 inputData))) =
       (if existsSync (init_state files0 dirs0 inputData)
             (abs_path (segs @ [''databases'', ''default_workflow'']))
        then []
        else [MkdirSync (abs_path (segs @ [''databases'', ''default_workflow'']))])"
    using mkdir_calls_execute(1) [where h = h and ?files0.0 = files0 and ?dirs0.0 = dirs0
      and inputData = inputData] unfolding wd .
  obtain evs where e: "calls (snd (execute h files0 dirs0 inputData)) =
       (if existsSync (init_state files0 dirs0 inputData) (workflowDir h) then []
        else [MkdirSync (workflowDir h)]) @ evs" and l: "loop_calls h (workflowDir h) evs"
    using calls_execute [where h = h and ?files0.0 = files0 and ?dirs0.0 = dirs0
      and inputData = inputData] by blast
  have ev: "\<forall>ev \<in> set (calls (snd (execute h files0 dirs0 inputData))).
        is_MkdirSync ev \<or>
        (\<exists>i. event_path ev =
           dbPath (abs_path (segs @ [''databases'', ''default_workflow'']))
             (dbName (nodeParameters h i)))"
    unfolding e using l unfolding wd by (auto simp: loop_calls_def)
  from wid wd mk ev db show ?thesis by blast
qed

theorem default_workflow_directory_witness:
  "workflowId ((demo_host (demo_every demo_insert) False)\<lparr>getWorkflow := None\<rparr>) =
     ''default_workflow'' \<and>
   workflowDir ((demo_host (demo_every demo_insert) False)\<lparr>getWorkflow := None\<rparr>) =
     ''/srv/databases/default_workflow'' \<and>
   dbPath (workflowDir ((demo_host (demo_every demo_insert) False)\<lparr>getWorkflow := None\<rparr>))
     (dbName (nodeParameters ((demo_host (demo_every demo_insert) False)\<lparr>getWorkflow := None\<rparr>) 0)) =
     ''/srv/databases/default_workflow/orders.db'' \<and>
   filter is_MkdirSync (calls (snd (execute
     ((demo_host (demo_every demo_insert) False)\<lparr>getWorkflow := None\<rparr>) Map.empty {}
     [demo_item 0]))) = [MkdirSync ''/srv/databases/default_workflow''] \<and>
   workflowId ((demo_host (demo_every demo_insert) False)
     \<lparr>getWorkflow := Some \<lparr>workflow_id = Undefined\<rparr>\<rparr>) = ''default_workflow'' \<and>
   workflowId ((demo_host (demo_every demo_insert) False)
     \<lparr>getWorkflow := Some \<lparr>workflow_id = Null\<rparr>\<rparr>) = ''default_workflow'' \<and>
   workflowId ((demo_host (demo_every demo_insert) False)
     \<lparr>getWorkflow := Some \<lparr>workflow_id = Str []\<rparr>\<rparr>) = ''default_workflow''"
proof -
  let ?h = "(demo_host (demo_every demo_insert) False)\<lparr>getWorkflow := None\<rparr>"
  let ?s0 = "init_state Map.empty {} [demo_item 0] :: jsonv list state"
  have p: "\<forall>seg \<in> set [''srv'']. plain_segment seg" by (simp add: plain_segment_def)
  have c: "cwd ?h = abs_path [''srv'']" by (simp add: demo_host_def abs_path_def)
  have g: "getWorkflow ?h = None \<or>
      (\<exists>w. getWorkflow ?h = Some w \<and>
         (workflow_id w = Undefined \<or> workflow_id w = Null \<or> workflow_id w = Str []))"
    by simp
  note t = default_workflow_directory [OF p c g, of Map.empty "{}" "[demo_item 0]"]
  have a: "abs_path ([''srv''] @ [''databases'', ''default_workflow'']) =
      ''/srv/databases/default_workflow''"
    by (simp add: abs_path_def)
  have n: "dbName (nodeParameters ?h 0) = ''orders''"
    by (simp add: demo_host_def demo_every_def demo_insert_def demo_params_def)
  from t have wi: "workflowId ?h = ''default_workflow''" by blast
  from t have wd: "workflowDir ?h = ''/srv/databases/default_workflow''" unfolding a by blast
  from t have "\<forall>i. CHR ''/'' \<notin> set (dbName (nodeParameters ?h i)) \<longrightarrow>
        dbPath (workflowDir ?h) (dbName (nodeParameters ?h i)) =
          abs_path ([''srv''] @ [''databases'', ''default_workflow'',
            dbName (nodeParameters ?h i) @ ''.db''])"
    by blast
  then have "CHR ''/'' \<notin> set (dbName (nodeParameters ?h 0)) \<longrightarrow>
        dbPath (workflowDir ?h) (dbName (nodeParameters ?h 0)) =
          abs_path ([''srv''] @ [''databases'', ''default_workflow'',
            dbName (nodeParameters ?h 0) @ ''.db''])" ..
  then have db: "dbPath (workflowDir ?h) (dbName (nodeParameters ?h 0)) =
      ''/srv/databases/default_workflow/orders.db''"
    unfolding n by (simp add: abs_path_def)
  have ne: "\<not> existsSync ?s0 ''/srv/databases/default_workflow''"
    by (simp add: existsSync_def init_state_def)
  from t have "filter is_MkdirSync (calls (snd (execute ?h Map.empty {} [demo_item 0]))) =
       (if existsSync ?s0 (abs_path ([''srv''] @ [''databases'', ''default_workflow'']))
        then []
        else [MkdirSync (abs_path ([''srv''] @ [''databases'', ''default_workflow'']))])"
    by blast
  with ne have f: "filter is_MkdirSync (calls (snd (execute ?h Map.empty {} [demo_item 0]))) =
      [MkdirSync ''/srv/databases/default_workflow'']"
    unfolding a by simp
  have falsy: "workflowId ((demo_host (demo_every demo_insert) False)
      \<lparr>getWorkflow := Some \<lparr>workflow_id = v\<rparr>\<rparr>) = ''default_workflow''"
    if "v = Undefined \<or> v = Null \<or> v = Str []" for v
  proof -
    let ?g = "(demo_host (demo_every demo_insert) False)
      \<lparr>getWorkflow := Some \<lparr>workflow_id = v\<rparr>\<rparr>"
    have cg: "cwd ?g = abs_path [''srv'']" by (simp add: demo_host_def abs_path_def)
    have gg: "getWorkflow ?g = None \<or>
      (\<exists>w. getWorkflow ?g = Some w \<and>
         (workflow_id w = Undefined \<or> workflow_id w = Null \<or> workflow_id w = Str []))"
      using that by simp
    from default_workflow_directory [OF p cg gg, of Map.empty "{}" "[demo_item 0]"]
    show ?thesis by blast
  qed
  from wi wd db f falsy [of Undefined] falsy [of Null] falsy [of "Str []"]
  show ?thesis by simp
qed

text \<open>
  The claim as stated fails for a \<^verbatim>\<open>dbName\<close> that climbs out of the directory:
  \<^verbatim>\<open>path.join\<close> resolves \<^verbatim>\<open>../other.db\<close> against \<^verbatim>\<open>databases/default_workflow\<close> to
  \<^verbatim>\<open>databases/other.db\<close>, and the database is opened there.
\<close>

theorem dbName_climbs_out_counterexample:
  "workflowId ((demo_host (demo_every (demo_insert\<lparr>dbName := ''../other''\<rparr>)) False)
     \<lparr>getWorkflow := None\<rparr>) = ''default_workflow'' \<and>
   workflowDir ((demo_host (demo_every (demo_insert\<lparr>dbName := ''../other''\<rparr>)) False)
     \<lparr>getWorkflow := None\<rparr>) = ''/srv/databases/default_workflow'' \<and>
   dbPath (workflowDir ((demo_host (demo_every (demo_insert\<lparr>dbName := ''../other''\<rparr>)) False)
       \<lparr>getWorkflow := None\<rparr>))
     (dbName (nodeParameters ((demo_host (demo_every (demo_insert\<lparr>dbName := ''../other''\<rparr>))
       False)\<lparr>getWorkflow := None\<rparr>) 0)) = ''/srv/databases/other.db'' \<and>
   calls (snd (execute ((demo_host (demo_every (demo_insert\<lparr>dbName := ''../other''\<rparr>)) False)
     \<lparr>getWorkflow := None\<rparr>) Map.empty {} [demo_item 0])) =
     [MkdirSync ''/srv/databases/default_workflow'',
      NewDatabase ''/srv/databases/other.db'',
      DbRun ''/srv/databases/other.db'' ''INSERT INTO t DEFAULT VALUES'' (JObject []),
      DbClose ''/srv/databases/other.db'']"
  by (simp add: run_defs)

end
